theory Spec2Isabelle
  imports Main "HOL-Library.Word"
begin

section \<open>JavaScript strings\<close>

text \<open>
  A JavaScript string is a sequence of UTF-16 code units; \<open>length\<close>, \<open>slice\<close>, \<open>indexOf\<close>
  and \<open>trim\<close> all count code units. String literals of the source that are plain ASCII
  (or Latin-1) are written with \<open>str\<close>, which sends every character to the code unit of
  the same number.
\<close>

type_synonym code_unit = "16 word"
type_synonym js_string = "code_unit list"

definition str :: "string \<Rightarrow> js_string" where
  "str s = map (\<lambda>c. of_nat (of_char c)) s"

text \<open>
  \<open>String.prototype.trim\<close> removes the ECMAScript WhiteSpace and LineTerminator code
  points from both ends: TAB, LF, VT, FF, CR, SP, NBSP, U+1680, U+2000..U+200A, U+2028,
  U+2029, U+202F, U+205F, U+3000 and U+FEFF.
\<close>

definition is_ws :: "code_unit \<Rightarrow> bool" where
  "is_ws c \<longleftrightarrow>
     c \<in> {0x9, 0xA, 0xB, 0xC, 0xD, 0x20, 0xA0, 0x1680}
     \<or> (0x2000 \<le> c \<and> c \<le> 0x200A)
     \<or> c \<in> {0x2028, 0x2029, 0x202F, 0x205F, 0x3000, 0xFEFF}"

definition trim :: "js_string \<Rightarrow> js_string" where
  "trim s = rev (dropWhile is_ws (rev (dropWhile is_ws s)))"

text \<open>
  \<open>s.slice(a, b)\<close> for integers \<open>0 \<le> a\<close> and \<open>0 \<le> b\<close>: the code units from index \<open>a\<close> up to,
  not including, index \<open>b\<close>, both clipped to the length; empty when \<open>b \<le> a\<close>.
\<close>

definition js_slice :: "'a list \<Rightarrow> nat \<Rightarrow> nat \<Rightarrow> 'a list" where
  "js_slice s a b = take (b - a) (drop a s)"

section \<open>The chunker (\<open>chunkText\<close>)\<close>

text \<open>
  \<^verbatim>\<open>
  function chunkText(s: string, chunkSize = 9000) {
      const t = (s || "").trim();
      if (!t) return [];
      const out: string[] = [];
      for (let i = 0; i < t.length; i += chunkSize) out.push(t.slice(i, i + chunkSize));
      return out;
  }
  \<close>
  The loop advances \<open>i\<close> by \<open>chunkSize\<close>, so with \<open>chunkSize = 0\<close> it never ends: the loop
  is a partial function and \<open>None\<close> stands for not returning.
\<close>

partial_function (option) chunk_loop ::
  "js_string \<Rightarrow> nat \<Rightarrow> nat \<Rightarrow> js_string list \<Rightarrow> js_string list option" where
  "chunk_loop t chunkSize i out =
     (if i < length t
      then chunk_loop t chunkSize (i + chunkSize) (out @ [js_slice t i (i + chunkSize)])
      else Some out)"

definition chunkText :: "js_string \<Rightarrow> nat \<Rightarrow> js_string list option" where
  "chunkText s chunkSize =
     (let t = trim s in
      if t = [] then Some [] else chunk_loop t chunkSize 0 [])"

text \<open>
  The specification's reading of the chunker: consecutive windows of \<open>n\<close> elements, the
  last one possibly shorter.
\<close>

function windows :: "nat \<Rightarrow> 'a list \<Rightarrow> 'a list list" where
  "windows n xs = (if n = 0 \<or> xs = [] then [] else take n xs # windows n (drop n xs))"
  by pat_completeness auto
termination
  by (relation "measure (\<lambda>(n, xs). length xs)") auto

declare windows.simps [simp del]

section \<open>Other string operations of the platform\<close>

text \<open>\<open>xs.join(sep)\<close>\<close>

definition join :: "js_string \<Rightarrow> js_string list \<Rightarrow> js_string" where
  "join sep xs = concat (case xs of [] \<Rightarrow> [] | x # rest \<Rightarrow> x # map (\<lambda>y. sep @ y) rest)"

text \<open>
  \<open>s.indexOf(c)\<close> and \<open>s.lastIndexOf(c)\<close> for a one-unit search string: the first and the
  last index holding \<open>c\<close>, or \<open>-1\<close>.
\<close>

definition indexOf :: "js_string \<Rightarrow> code_unit \<Rightarrow> int" where
  "indexOf s c = (if c \<in> set s then int (length (takeWhile (\<lambda>x. x \<noteq> c) s)) else - 1)"

definition lastIndexOf :: "js_string \<Rightarrow> code_unit \<Rightarrow> int" where
  "lastIndexOf s c =
     (if c \<in> set s then int (length s) - 1 - int (length (takeWhile (\<lambda>x. x \<noteq> c) (rev s)))
      else - 1)"

text \<open>The decimal digits of a number, as a template literal \<open>${i + 1}\<close> prints them.\<close>

function decimal :: "nat \<Rightarrow> js_string" where
  "decimal n = (if n < 10 then [of_nat (48 + n)] else decimal (n div 10) @ [of_nat (48 + n mod 10)])"
  by pat_completeness auto
termination
  by (relation "measure (\<lambda>n. n)") auto

declare decimal.simps [simp del]

section \<open>JSON values and the response validator\<close>

text \<open>
  The values \<open>JSON.parse\<close> can return. A number keeps its lexeme (the code never looks
  at one); an object keeps its members in source order, and reading a property takes
  the last member of that name, as \<open>JSON.parse\<close> does with duplicate keys.
\<close>

datatype json =
    JNull
  | JBool bool
  | JNumber js_string
  | JString js_string
  | JArray "json list"
  | JObject "(js_string \<times> json) list"

text \<open>
  \<^verbatim>\<open>function isRecord(v: unknown): v is Record<string, unknown> {
      return typeof v === "object" && v !== null; }\<close>
  Arrays are objects too.
\<close>

fun isRecord :: "json \<Rightarrow> bool" where
  "isRecord (JObject _) = True"
| "isRecord (JArray _) = True"
| "isRecord _ = False"

text \<open>
  \<open>(v as any).name\<close> on a record, for the three names the code reads (\<open>summary\<close>,
  \<open>title\<close>, \<open>keywords\<close>): \<open>None\<close> is \<open>undefined\<close>. An array has none of them.
\<close>

fun get_prop :: "json \<Rightarrow> js_string \<Rightarrow> json option" where
  "get_prop (JObject members) name = map_of (rev members) name"
| "get_prop _ name = None"

text \<open>\<open>xs.filter((k) => typeof k === "string")\<close>\<close>

fun strings_only :: "json list \<Rightarrow> js_string list" where
  "strings_only [] = []"
| "strings_only (JString s # ks) = s # strings_only ks"
| "strings_only (_ # ks) = strings_only ks"

record SummaryJSON =
  title :: "js_string option"
  summary :: js_string
  "keywords" :: "js_string list"

definition default_keywords :: "js_string list" where
  "default_keywords = [str ''summary'', str ''document'', str ''analysis'']"

text \<open>
  \<^verbatim>\<open>
  function normalizeSummary(v: unknown): SummaryJSON | null {
      if (!isRecord(v)) return null;
      if (typeof (v as any).summary !== "string") return null;
      const title = typeof (v as any).title === "string" ? (v as any).title : undefined;
      let keywords: string[] = [];
      if (Array.isArray((v as any).keywords)) {
          keywords = (v as any).keywords.filter((k: unknown) => typeof k === "string") as string[];
      }
      if (keywords.length === 0) keywords = ["summary", "document", "analysis"];
      return { title, summary: (v as any).summary, keywords };
  }
  \<close>
\<close>

definition normalizeSummary :: "json \<Rightarrow> SummaryJSON option" where
  "normalizeSummary v =
     (if \<not> isRecord v then None
      else case get_prop v (str ''summary'') of
        Some (JString s) \<Rightarrow>
          (let t = (case get_prop v (str ''title'') of Some (JString t) \<Rightarrow> Some t | _ \<Rightarrow> None);
               ks = (case get_prop v (str ''keywords'') of
                       Some (JArray xs) \<Rightarrow> strings_only xs
                     | _ \<Rightarrow> []);
               ks = (if length ks = 0 then default_keywords else ks)
           in Some \<lparr>title = t, summary = s, keywords = ks\<rparr>)
      | _ \<Rightarrow> None)"

text \<open>
  \<^verbatim>\<open>
  function extractJson(raw: string): string | null {
      const s = raw.indexOf("{");
      const e = raw.lastIndexOf("}");
      if (s < 0 || e <= s) return null;
      return raw.slice(s, e + 1);
  }
  \<close>
\<close>

definition extractJson :: "js_string \<Rightarrow> js_string option" where
  "extractJson raw =
     (let s = indexOf raw 0x7B;
          e = lastIndexOf raw 0x7D
      in if s < 0 \<or> e \<le> s then None else Some (js_slice raw (nat s) (nat (e + 1))))"

text \<open>
  \<open>JSON.parse\<close> belongs to the platform, so the parser takes it as a parameter: it
  returns the value, or \<open>None\<close> where \<open>JSON.parse\<close> throws. \<open>normalizeSummary\<close> never
  throws, so only a failed parse reaches the \<open>catch\<close> blocks.
  \<^verbatim>\<open>
  function parseSummary(raw: string): SummaryJSON | null {
      try {
          return normalizeSummary(JSON.parse(raw));
      } catch {
          const sliced = extractJson(raw);
          if (!sliced) return null;
          try {
              return normalizeSummary(JSON.parse(sliced));
          } catch {
              return null;
          }
      }
  }
  \<close>
\<close>

definition parseSummary :: "(js_string \<Rightarrow> json option) \<Rightarrow> js_string \<Rightarrow> SummaryJSON option" where
  "parseSummary JSON_parse raw =
     (case JSON_parse raw of
        Some v \<Rightarrow> normalizeSummary v
      | None \<Rightarrow>
          (case extractJson raw of
             None \<Rightarrow> None
           | Some sliced \<Rightarrow>
               if sliced = [] then None
               else (case JSON_parse sliced of
                       Some v \<Rightarrow> normalizeSummary v
                     | None \<Rightarrow> None)))"

text \<open>
  \<^verbatim>\<open>
  function normalizeKeywordsFromJson(v: unknown): string[] {
      if (Array.isArray(v)) return v.filter((x) => typeof x === "string") as string[];
      return [];
  }
  \<close>
\<close>

fun normalizeKeywordsFromJson :: "json \<Rightarrow> js_string list" where
  "normalizeKeywordsFromJson (JArray xs) = strings_only xs"
| "normalizeKeywordsFromJson _ = []"

section \<open>Source classification at the persistence boundary\<close>

text \<open>
  The Prisma enum \<open>SummarySource\<close> is generated code; its members are the strings of the
  migration's \<^verbatim>\<open>CREATE TYPE "SummarySource" AS ENUM ('pdf', 'image', 'pdf_image')\<close>.
  \<^verbatim>\<open>
  function toDbSource(source: "pdf" | "image" | "pdf+image"): SummarySource {
      if (source === "pdf") return SummarySource.pdf;
      if (source === "image") return SummarySource.image;
      return SummarySource.pdf_image;
  }
  function toApiSource(source: SummarySource | string): "pdf" | "image" | "pdf+image" {
      return source === "pdf_image" ? "pdf+image" : (source as "pdf" | "image");
  }
  \<close>
\<close>

definition SummarySource_pdf :: js_string where
  "SummarySource_pdf = str ''pdf''"

definition SummarySource_image :: js_string where
  "SummarySource_image = str ''image''"

definition SummarySource_pdf_image :: js_string where
  "SummarySource_pdf_image = str ''pdf_image''"

definition toDbSource :: "js_string \<Rightarrow> js_string" where
  "toDbSource source =
     (if source = str ''pdf'' then SummarySource_pdf
      else if source = str ''image'' then SummarySource_image
      else SummarySource_pdf_image)"

definition toApiSource :: "js_string \<Rightarrow> js_string" where
  "toApiSource source = (if source = str ''pdf_image'' then str ''pdf+image'' else source)"

section \<open>Uploads and the page rasterizer\<close>

text \<open>
  A thrown value is kept as its \<open>message\<close> when that is a string (all the request
  boundary reads of it), \<open>None\<close> otherwise.
\<close>

type_synonym exn = "js_string option"

text \<open>
  An uploaded file is known to the route only through what the libraries make of its
  bytes. For the PDF: its name, what \<open>parsePdfToText\<close> returns (\<open>None\<close>: it throws),
  what \<open>sharp(...).metadata()\<close> reports as \<open>pages\<close> (\<open>None\<close>: it throws; \<open>Some None\<close>:
  not a number) and the base64 JPEG that rendering page \<open>i\<close> gives (\<open>None\<close>: it throws).
  For an image: what the \<open>sharp\<close> pipeline of \<open>compressImageToJpegBase64\<close> gives.
\<close>

record pdf_upload =
  name :: js_string
  text_layer :: "js_string option"
  meta_pages :: "int option option"
  render_page :: "nat \<Rightarrow> js_string option"

record image_upload =
  compressed :: "exn + js_string"

type_synonym encoded_image = "js_string \<times> js_string"

definition compressImageToJpegBase64 :: "image_upload \<Rightarrow> exn + encoded_image" where
  "compressImageToJpegBase64 file =
     (case compressed file of Inl e \<Rightarrow> Inl e | Inr out \<Rightarrow> Inr (str ''image/jpeg'', out))"

text \<open>
  \<^verbatim>\<open>
  async function pdfBufferToJpegPagesBase64(pdfBuffer: Buffer, maxPages = 2) {
      let totalPages = 1;
      try {
          const meta = await sharp(pdfBuffer, { density: 160 }).metadata();
          if (typeof meta.pages === "number" && meta.pages > 0) totalPages = meta.pages;
      } catch {
          totalPages = 1;
      }
      const pagesToRender = Math.min(totalPages, maxPages);
      const out = [];
      for (let i = 0; i < pagesToRender; i++) {
          const jpg = await sharp(pdfBuffer, { density: 160, page: i })
              .rotate().resize(...).jpeg({ quality: 80 }).toBuffer();
          out.push({ mime: "image/jpeg", b64: jpg.toString("base64") });
      }
      return out;
  }
  \<close>
  The result is \<open>None\<close> when rendering a page throws.
\<close>

definition totalPages :: "pdf_upload \<Rightarrow> int" where
  "totalPages f =
     (case meta_pages f of
        Some (Some pages) \<Rightarrow> if pages > 0 then pages else 1
      | _ \<Rightarrow> 1)"

function render_loop ::
  "pdf_upload \<Rightarrow> nat \<Rightarrow> nat \<Rightarrow> encoded_image list \<Rightarrow> encoded_image list option" where
  "render_loop f pagesToRender i out =
     (if i < pagesToRender
      then (case render_page f i of
              None \<Rightarrow> None
            | Some jpg \<Rightarrow> render_loop f pagesToRender (i + 1) (out @ [(str ''image/jpeg'', jpg)]))
      else Some out)"
  by pat_completeness auto
termination
  by (relation "measure (\<lambda>(f, pagesToRender, i, out). pagesToRender - i)") auto

declare render_loop.simps [simp del]

definition pdfBufferToJpegPagesBase64 :: "pdf_upload \<Rightarrow> nat \<Rightarrow> encoded_image list option" where
  "pdfBufferToJpegPagesBase64 f maxPages =
     (let pagesToRender = nat (min (totalPages f) (int maxPages))
      in render_loop f pagesToRender 0 [])"

section \<open>The model endpoint, the datastore and the request\<close>

datatype part = Text_part js_string | InlineData js_string js_string

text \<open>
  \<open>ai.models.generateContent\<close> either rejects with a thrown value or resolves to a
  response whose \<open>text\<close> is a string or undefined.
\<close>

datatype gen_result = Rejected exn | Resolved "js_string option"

text \<open>
  The collaborators of the route: \<open>JSON.parse\<close>; the model endpoint, whose answer may
  depend on the prompt and on how many calls came before; the identifier and the
  timestamp the datastore gives a new row.
\<close>

record env =
  JSON_parse :: "js_string \<Rightarrow> json option"
  generateContent :: "nat \<Rightarrow> part list \<Rightarrow> gen_result"
  fresh_id :: js_string
  now :: nat

record summary_row =
  row_id :: js_string
  userId :: js_string
  source :: js_string
  row_title :: js_string
  row_summary :: js_string
  row_keywords :: json
  inputText :: "js_string option"
  pdfName :: "js_string option"
  imageCount :: "nat option"
  createdAt :: nat

text \<open>
  What a request can change or cause: the \<open>User\<close> and \<open>Summary\<close> tables, the prompts sent
  to the model (in order) and the number of times the rasterizer was run.
\<close>

record world =
  users :: "js_string list"
  summaries :: "summary_row list"
  model_calls :: "part list list"
  raster_attempts :: nat

text \<open>
  The request as the handler sees it: whether \<open>process.env.GEMINI_API_KEY\<close> is set, the
  \<open>userId\<close> of \<open>auth()\<close>, the form's \<open>pdf\<close> entry and its \<open>images\<close> entries (files, which
  \<open>filter(Boolean)\<close> keeps).
\<close>

record request =
  has_api_key :: bool
  caller :: "js_string option"
  pdf :: "pdf_upload option"
  images :: "image_upload list"

record summary_view =
  v_id :: js_string
  v_createdAt :: nat
  v_source :: js_string
  v_title :: js_string
  v_summary :: js_string
  v_keywords :: "js_string list"
  v_pdfName :: "js_string option"
  v_imageCount :: "nat option"

text \<open>
  The JSON bodies of the summarization route: \<open>{ok: false, error}\<close>,
  \<open>{ok: false, error, raw}\<close> and \<open>{ok: true, data}\<close>; a response is a status and a body.
\<close>

datatype body =
    Error_body js_string
  | Error_raw_body js_string js_string
  | Ok_body summary_view

type_synonym response = "nat \<times> body"

text \<open>\<open>prisma.user.upsert({ where: { id: userId }, update: {}, create: { id: userId } })\<close>\<close>

definition ensureUserRow :: "js_string \<Rightarrow> world \<Rightarrow> world" where
  "ensureUserRow uid w =
     (if uid \<in> set (users w) then w else w\<lparr>users := users w @ [uid]\<rparr>)"

text \<open>
  One call of the model: the prompt is logged, and a missing \<open>text\<close> reads as the empty
  string (\<open>typeof r.text === "string" ? r.text : String(r.text ?? "")\<close>).
\<close>

definition generate :: "env \<Rightarrow> part list \<Rightarrow> world \<Rightarrow> (exn + js_string) \<times> world" where
  "generate env parts w =
     (let w' = w\<lparr>model_calls := model_calls w @ [parts]\<rparr>
      in case generateContent env (length (model_calls w)) parts of
           Rejected e \<Rightarrow> (Inl e, w')
         | Resolved None \<Rightarrow> (Inr [], w')
         | Resolved (Some t) \<Rightarrow> (Inr t, w'))"

section \<open>Prompts and the chunk-and-merge path\<close>

definition ACADEMIC_GUIDE :: js_string where
  "ACADEMIC_GUIDE =
     str ''ONLY return JSON. No markdown fences. No extra text.'' @ [0xA]
     @ str ''Schema: {'' @ [0x22] @ str ''title'' @ [0x22] @ str ''?:string,''
     @ [0x22] @ str ''summary'' @ [0x22] @ str '':string,'' @ [0x22]
     @ str ''keywords'' @ [0x22] @ str '':string[]}'' @ [0xA]
     @ str ''Write in the same language as the document.'' @ [0xA]
     @ str ''Write an ACADEMIC summary suitable for a course assignment.'' @ [0xA]
     @ str ''Use a structured format INSIDE the summary field (Markdown h''
     @ str ''eadings are allowed inside the string).'' @ [0xA]
     @ str ''Required structure inside summary:'' @ [0xA] @ str ''1) ## Ama''
     @ [0xE7] @ str '' ve Kapsam'' @ [0xA] @ str ''2) ## Temel Kavramlar ve Tan''
     @ [0x131] @ str ''mlar (terimleri k'' @ [0x131] @ str ''sa tan'' @ [0x131]
     @ str ''mla: CLR, IL, JIT, CLS/CTS, ASP.NET, ADO.NET, Windows Forms ''
     @ str ''vb.)'' @ [0xA] @ str ''3) ## Mimari / '' @ [0xC7] @ str ''al''
     @ [0x131, 0x15F] @ str ''ma Mant'' @ [0x131, 0x11F, 0x131] @ str '' (ad''
     @ [0x131] @ str ''m ad'' @ [0x131]
     @ str ''m: kaynak kod -> IL -> CLR -> JIT -> makine kodu)'' @ [0xA]
     @ str ''4) ## Bile'' @ [0x15F] @ str ''enler ve '' @ [0xD6]
     @ str ''rnekler (servisler, ara'' @ [0xE7] @ str ''lar, kullan'' @ [0x131]
     @ str ''m alanlar'' @ [0x131] @ str '')'' @ [0xA] @ str ''5) ## Kar''
     @ [0x15F, 0x131] @ str ''la'' @ [0x15F] @ str ''t'' @ [0x131]
     @ str ''rma (varsa: J2EE vs .NET; JVM vs CLR; portability; tools)'' @ [0xA]
     @ str ''6) ## Sonu'' @ [0xE7] @ str '' (ana '' @ [0xE7, 0x131] @ str ''kar''
     @ [0x131] @ str ''mlar, neden '' @ [0xF6] @ str ''nemli?)'' @ [0xA]
     @ str ''Avoid tekrar/bo'' @ [0x15F] @ str '' c'' @ [0xFC]
     @ str ''mle. Teknik terimleri KORU.'' @ [0xA]
     @ str ''keywords: 8-12 adet, ders i'' @ [0xE7] @ str ''in anlaml'' @ [0x131]
     @ str '' terimler.''"

text \<open>The fixed text of the chunk prompt, up to and including \<open>TEXT:\<close> and its newline.\<close>

definition chunk_instructions :: js_string where
  "chunk_instructions =
     str ''ONLY return JSON.'' @ [0xA] @ str ''Schema: {'' @ [0x22]
     @ str ''summary'' @ [0x22] @ str '':string,'' @ [0x22] @ str ''keywords''
     @ [0x22] @ str '':string[]}'' @ [0xA]
     @ str ''Write in the same language as the text.'' @ [0xA]
     @ str ''Write an ACADEMIC chunk summary.'' @ [0xA]
     @ str ''summary: 10-14 sentences.'' @ [0xA]
     @ str ''Must include key definitions/terms mentioned in this chunk.'' @ [0xA]
     @ str ''keywords: 6-10.'' @ [0xA, 0xA] @ str ''TEXT:'' @ [0xA]"

text \<open>The fixed text of the merge prompt after the length guidance line.\<close>

definition merge_instructions :: js_string where
  "merge_instructions =
     str ''Merge the chunk summaries into ONE coherent academic summary''
     @ str ''.'' @ [0xA] @ str ''Remove duplicates but keep depth.'' @ [0xA]
     @ str ''If document includes section about comparison (e.g., J2EE vs''
     @ str '' .NET), '' @ [0xBC18, 0xB4DC, 0xC2DC] @ str '' ekle.'' @ [0xA, 0xA]
     @ str ''CHUNK_SUMMARIES:'' @ [0xA]"

definition msg_empty_pdf_text :: js_string where
  "msg_empty_pdf_text =
     str ''PDF metni bo'' @ [0x15F] @ str ''.''"

definition chunk_prompt :: "js_string \<Rightarrow> part list" where
  "chunk_prompt text = [Text_part (chunk_instructions @ text)]"

definition geminiSummarizeTextChunkAcademic ::
  "env \<Rightarrow> js_string \<Rightarrow> world \<Rightarrow> (exn + js_string) \<times> world" where
  "geminiSummarizeTextChunkAcademic env text w = generate env (chunk_prompt text) w"

definition merge_prompt :: "js_string \<Rightarrow> js_string \<Rightarrow> part list" where
  "merge_prompt partials summaryLength =
     [Text_part (ACADEMIC_GUIDE @ [0xA]
        @ str ''Length guidance (sentences): '' @ summaryLength @ str ''.'' @ [0xA]
        @ merge_instructions @ partials)]"

definition geminiFinalSummaryAcademic ::
  "env \<Rightarrow> js_string \<Rightarrow> js_string \<Rightarrow> world \<Rightarrow> (exn + js_string) \<times> world" where
  "geminiFinalSummaryAcademic env partials summaryLength w =
     generate env (merge_prompt partials summaryLength) w"

text \<open>
  \<^verbatim>\<open>
  async function summarizeFullPdfTextAcademic(pdfText: string, summaryLength: string) {
      const chunks = chunkText(pdfText, 9000);
      if (chunks.length === 0) throw new Error(...);
      const partialJsons: string[] = [];
      for (let i = 0; i < chunks.length; i++) {
          const raw = await geminiSummarizeTextChunkAcademic(chunks[i]);
          partialJsons.push(`CHUNK_${i + 1}: ${raw}`);
      }
      return await geminiFinalSummaryAcademic(partialJsons.join("\n\n"), summaryLength);
  }
  \<close>
\<close>

function chunk_calls ::
  "env \<Rightarrow> js_string list \<Rightarrow> nat \<Rightarrow> js_string list \<Rightarrow> world \<Rightarrow> (exn + js_string list) \<times> world" where
  "chunk_calls env chunks i partialJsons w =
     (if i < length chunks
      then (case geminiSummarizeTextChunkAcademic env (chunks ! i) w of
              (Inl e, w') \<Rightarrow> (Inl e, w')
            | (Inr raw, w') \<Rightarrow>
                chunk_calls env chunks (i + 1)
                  (partialJsons @ [str ''CHUNK_'' @ decimal (i + 1) @ str '': '' @ raw]) w')
      else (Inr partialJsons, w))"
  by pat_completeness auto
termination
  by (relation "measure (\<lambda>(env, chunks, i, partialJsons, w). length chunks - i)") auto

declare chunk_calls.simps [simp del]

definition summarizeFullPdfTextAcademic ::
  "env \<Rightarrow> js_string \<Rightarrow> js_string \<Rightarrow> world \<Rightarrow> ((exn + js_string) \<times> world) option" where
  "summarizeFullPdfTextAcademic env pdfText summaryLength w =
     (case chunkText pdfText 9000 of
        None \<Rightarrow> None
      | Some chunks \<Rightarrow>
          Some (if length chunks = 0 then (Inl (Some msg_empty_pdf_text), w)
                else case chunk_calls env chunks 0 [] w of
                       (Inl e, w') \<Rightarrow> (Inl e, w')
                     | (Inr partialJsons, w') \<Rightarrow>
                         geminiFinalSummaryAcademic env
                           (join [0xA, 0xA] partialJsons) summaryLength w'))"

section \<open>The summarization route (\<open>POST\<close>)\<close>

definition msg_no_api_key :: js_string where
  "msg_no_api_key =
     str ''GEMINI_API_KEY yok (.env.local).''"

definition msg_no_input :: js_string where
  "msg_no_input =
     str ''PDF veya en az 1 g'' @ [0xF6] @ str ''rsel y'' @ [0xFC] @ str ''kle.''"

definition msg_raster_empty :: js_string where
  "msg_raster_empty =
     str ''Bu PDF taranm'' @ [0x131, 0x15F]
     @ str '' (text layer yok) ve otomatik g'' @ [0xF6] @ str ''rsel ''
     @ [0xE7, 0x131] @ str ''karma ba'' @ [0x15F] @ str ''ar'' @ [0x131]
     @ str ''s'' @ [0x131] @ str ''z oldu. '' @ [0xC7, 0xF6] @ str ''z'' @ [0xFC]
     @ str ''m: PDF sayfas'' @ [0x131] @ str ''n'' @ [0x131] @ str ''n ekran g''
     @ [0xF6] @ str ''r'' @ [0xFC] @ str ''nt'' @ [0xFC] @ str ''s'' @ [0xFC]
     @ str ''n'' @ [0xFC] @ str '' / sayfa g'' @ [0xF6] @ str ''rselini '' @ [0x27]
     @ str ''G'' @ [0xF6] @ str ''rsel ekle'' @ [0x27] @ str '' ile y'' @ [0xFC]
     @ str ''kle.''"

definition msg_raster_threw :: js_string where
  "msg_raster_threw =
     str ''Bu PDF taranm'' @ [0x131, 0x15F]
     @ str '' (text layer yok). Otomatik sayfa g'' @ [0xF6] @ str ''rseli ''
     @ [0xE7, 0x131] @ str ''kar'' @ [0x131] @ str ''lamad'' @ [0x131] @ str ''. ''
     @ [0xC7, 0xF6] @ str ''z'' @ [0xFC] @ str ''m: PDF sayfas'' @ [0x131]
     @ str ''n'' @ [0x131] @ str ''n ekran g'' @ [0xF6] @ str ''r'' @ [0xFC]
     @ str ''nt'' @ [0xFC] @ str ''s'' @ [0xFC] @ str ''n'' @ [0xFC]
     @ str '' / sayfa g'' @ [0xF6] @ str ''rselini '' @ [0x27] @ str ''G'' @ [0xF6]
     @ str ''rsel ekle'' @ [0x27] @ str '' ile y'' @ [0xFC] @ str ''kle (Gemini g''
     @ [0xF6] @ str ''rselden '' @ [0xF6] @ str ''zet '' @ [0xE7, 0x131]
     @ str ''kar'' @ [0x131] @ str ''r).''"

definition msg_not_json :: js_string where
  "msg_not_json =
     str ''Model JSON d'' @ [0xF6] @ str ''nmedi.''"

definition default_title :: js_string where
  "default_title =
     str ''Akademik '' @ [0xD6] @ str ''zet''"

text \<open>
  \<^verbatim>\<open>
  let pdfText = "";
  if (pdfFile) {
      ...
      try { pdfText = await parsePdfToText(pdfBuf); } catch { pdfText = ""; }
  }
  \<close>
\<close>

definition extractedText :: "pdf_upload option \<Rightarrow> js_string" where
  "extractedText pdfFile =
     (case pdfFile of
        None \<Rightarrow> []
      | Some f \<Rightarrow> (case text_layer f of None \<Rightarrow> [] | Some t \<Rightarrow> t))"

text \<open>
  \<^verbatim>\<open>
  let summaryLength = "18-24";
  if (pdfText && pdfText.length > 0) {
      if (pdfText.length < 10000) summaryLength = "16-22";
      else if (pdfText.length < 40000) summaryLength = "24-34";
      else summaryLength = "34-45";
  }
  \<close>
\<close>

definition summaryLength_for :: "js_string \<Rightarrow> js_string" where
  "summaryLength_for pdfText =
     (if pdfText \<noteq> [] \<and> length pdfText > 0
      then (if length pdfText < 10000 then str ''16-22''
            else if length pdfText < 40000 then str ''24-34''
            else str ''34-45'')
      else str ''18-24'')"

text \<open>
  The automatic rasterization of a scanned PDF (the block after \<open>let autoPdfImages\<close>):
  it either answers the request with a 400 or hands on the rendered pages.
  \<^verbatim>\<open>
  if (pdfFile && pdfText.trim().length === 0 && images.length === 0) {
      try {
          const buf = pdfBuf ?? Buffer.from(await pdfFile.arrayBuffer());
          autoPdfImages = await pdfBufferToJpegPagesBase64(buf, 2);
          if (autoPdfImages.length === 0) { return ... status 400 }
      } catch (e) {
          return ... status 400
      }
  }
  \<close>
\<close>

definition autoRasterize ::
  "pdf_upload option \<Rightarrow> js_string \<Rightarrow> image_upload list \<Rightarrow> world
     \<Rightarrow> (response + encoded_image list) \<times> world" where
  "autoRasterize pdfFile pdfText imgs w =
     (case pdfFile of
        None \<Rightarrow> (Inr [], w)
      | Some f \<Rightarrow>
          if length (trim pdfText) = 0 \<and> length imgs = 0
          then (let w' = w\<lparr>raster_attempts := raster_attempts w + 1\<rparr>
                in case pdfBufferToJpegPagesBase64 f 2 of
                     None \<Rightarrow> (Inl (400, Error_body msg_raster_threw), w')
                   | Some autoPdfImages \<Rightarrow>
                       if length autoPdfImages = 0
                       then (Inl (400, Error_body msg_raster_empty), w')
                       else (Inr autoPdfImages, w'))
          else (Inr [], w))"

text \<open>
  The single model call (the \<open>else\<close> branch): the text part, then the first four user
  images, compressed one after the other, then the first four rasterized pages.
  \<^verbatim>\<open>
  parts.push({ text:
      `${ACADEMIC_GUIDE}\n` +
      `Length guidance (sentences): ${summaryLength}.\n\n` +
      (pdfText ? `PDF TEXT:\n${pdfText.slice(0, 12000)}\n\n` : "PDF TEXT: (none / scanned)\n\n") +
      (hasAnyImages ? "IMAGES attached below.\n" : "IMAGES: (none)\n") });
  for (const img of images.slice(0, 4)) {
      const { mime, b64 } = await compressImageToJpegBase64(img);
      parts.push({ inlineData: { mimeType: mime, data: b64 } });
  }
  for (const a of autoPdfImages.slice(0, 4)) {
      parts.push({ inlineData: { mimeType: a.mime, data: a.b64 } });
  }
  const result = await ai.models.generateContent(...);
  \<close>
\<close>

definition single_prompt_text :: "js_string \<Rightarrow> js_string \<Rightarrow> bool \<Rightarrow> js_string" where
  "single_prompt_text pdfText summaryLength hasAnyImages =
     ACADEMIC_GUIDE @ [0xA]
     @ str ''Length guidance (sentences): '' @ summaryLength @ str ''.'' @ [0xA, 0xA]
     @ (if pdfText \<noteq> []
        then str ''PDF TEXT:'' @ [0xA] @ js_slice pdfText 0 12000 @ [0xA, 0xA]
        else str ''PDF TEXT: (none / scanned)'' @ [0xA, 0xA])
     @ (if hasAnyImages then str ''IMAGES attached below.'' @ [0xA]
        else str ''IMAGES: (none)'' @ [0xA])"

fun compress_images :: "image_upload list \<Rightarrow> part list \<Rightarrow> exn + part list" where
  "compress_images [] parts = Inr parts"
| "compress_images (img # rest) parts =
     (case compressImageToJpegBase64 img of
        Inl e \<Rightarrow> Inl e
      | Inr (mime, b64) \<Rightarrow> compress_images rest (parts @ [InlineData mime b64]))"

definition summarizeSingleCall ::
  "env \<Rightarrow> js_string \<Rightarrow> js_string \<Rightarrow> image_upload list \<Rightarrow> encoded_image list \<Rightarrow> bool \<Rightarrow> world
     \<Rightarrow> (exn + js_string) \<times> world" where
  "summarizeSingleCall env pdfText summaryLength imgs autoPdfImages hasAnyImages w =
     (case compress_images (js_slice imgs 0 4)
             [Text_part (single_prompt_text pdfText summaryLength hasAnyImages)] of
        Inl e \<Rightarrow> (Inl e, w)
      | Inr parts \<Rightarrow>
          generate env
            (parts @ map (\<lambda>a. InlineData (fst a) (snd a)) (js_slice autoPdfImages 0 4)) w)"

text \<open>
  The choice of path:
  \<^verbatim>\<open>
  const hasAnyImages = images.length > 0 || autoPdfImages.length > 0;
  if (pdfText && pdfText.length > 12000 && !hasAnyImages) {
      raw = await summarizeFullPdfTextAcademic(pdfText, summaryLength);
  } else { ... single call ... }
  \<close>
  \<open>None\<close> stands for a request that never returns.
\<close>

definition summarize ::
  "env \<Rightarrow> js_string \<Rightarrow> js_string \<Rightarrow> image_upload list \<Rightarrow> encoded_image list \<Rightarrow> world
     \<Rightarrow> ((exn + js_string) \<times> world) option" where
  "summarize env pdfText summaryLength imgs autoPdfImages w =
     (let hasAnyImages = (length imgs > 0 \<or> length autoPdfImages > 0)
      in if pdfText \<noteq> [] \<and> length pdfText > 12000 \<and> \<not> hasAnyImages
         then summarizeFullPdfTextAcademic env pdfText summaryLength w
         else Some (summarizeSingleCall env pdfText summaryLength imgs autoPdfImages
                      hasAnyImages w))"

text \<open>
  Classification, insertion and the answer:
  \<^verbatim>\<open>
  const sourceUI = pdfFile && hasAnyImages ? "pdf+image" : pdfFile ? "pdf" : "image";
  const sourceDB = toDbSource(sourceUI);
  const saved = await prisma.summary.create({
      data: {
          userId,
          source: sourceDB,
          title: parsed.title?.slice(0, 140) || (the default title),
          summary: parsed.summary,
          keywords: parsed.keywords,
          inputText: pdfText || "",
          pdfName: pdfFile?.name ?? null,
          imageCount: images.length > 0 ? images.length : autoPdfImages.length,
      },
      select: { id, createdAt, source, title, summary, keywords, pdfName, imageCount },
  });
  return NextResponse.json({ ok: true, data: { ...saved,
      source: toApiSource(saved.source),
      keywords: normalizeKeywordsFromJson(saved.keywords) } });
  \<close>
\<close>

definition sourceUI :: "pdf_upload option \<Rightarrow> bool \<Rightarrow> js_string" where
  "sourceUI pdfFile hasAnyImages =
     (if pdfFile \<noteq> None \<and> hasAnyImages then str ''pdf+image''
      else if pdfFile \<noteq> None then str ''pdf''
      else str ''image'')"

definition new_row ::
  "env \<Rightarrow> js_string \<Rightarrow> pdf_upload option \<Rightarrow> js_string \<Rightarrow> image_upload list
     \<Rightarrow> encoded_image list \<Rightarrow> SummaryJSON \<Rightarrow> summary_row" where
  "new_row env uid pdfFile pdfText imgs autoPdfImages parsed =
     (let hasAnyImages = (length imgs > 0 \<or> length autoPdfImages > 0);
          sourceDB = toDbSource (sourceUI pdfFile hasAnyImages)
      in \<lparr>row_id = fresh_id env,
          userId = uid,
          source = sourceDB,
          row_title = (case title parsed of
                         None \<Rightarrow> default_title
                       | Some t \<Rightarrow>
                           if js_slice t 0 140 = [] then default_title else js_slice t 0 140),
          row_summary = summary parsed,
          row_keywords = JArray (map JString (keywords parsed)),
          inputText = Some pdfText,
          pdfName = (case pdfFile of None \<Rightarrow> None | Some f \<Rightarrow> Some (name f)),
          imageCount = Some (if length imgs > 0 then length imgs else length autoPdfImages),
          createdAt = now env\<rparr>)"

definition view_of :: "summary_row \<Rightarrow> summary_view" where
  "view_of saved =
     \<lparr>v_id = row_id saved,
      v_createdAt = createdAt saved,
      v_source = toApiSource (source saved),
      v_title = row_title saved,
      v_summary = row_summary saved,
      v_keywords = normalizeKeywordsFromJson (row_keywords saved),
      v_pdfName = pdfName saved,
      v_imageCount = imageCount saved\<rparr>"

definition persist ::
  "env \<Rightarrow> js_string \<Rightarrow> pdf_upload option \<Rightarrow> js_string \<Rightarrow> image_upload list
     \<Rightarrow> encoded_image list \<Rightarrow> SummaryJSON \<Rightarrow> world \<Rightarrow> response \<times> world" where
  "persist env uid pdfFile pdfText imgs autoPdfImages parsed w =
     (let saved = new_row env uid pdfFile pdfText imgs autoPdfImages parsed
      in ((200, Ok_body (view_of saved)), w\<lparr>summaries := summaries w @ [saved]\<rparr>))"

text \<open>
  The \<open>catch\<close> of the request boundary: the thrown value's message when it has one,
  \<open>"Server error"\<close> otherwise, with status 500.
\<close>

definition server_error :: "exn \<Rightarrow> response" where
  "server_error e =
     (500, Error_body (case e of Some msg \<Rightarrow> msg | None \<Rightarrow> str ''Server error''))"

text \<open>
  The handler. \<open>!userId\<close> holds for \<open>null\<close> and for the empty string. \<open>auth()\<close>,
  \<open>req.formData()\<close> and the datastore are taken to return.
\<close>

definition POST :: "env \<Rightarrow> request \<Rightarrow> world \<Rightarrow> (response \<times> world) option" where
  "POST env req w =
     (if \<not> has_api_key req then Some ((500, Error_body msg_no_api_key), w)
      else case caller req of
        None \<Rightarrow> Some ((401, Error_body (str ''Unauthorized'')), w)
      | Some uid \<Rightarrow>
          if uid = [] then Some ((401, Error_body (str ''Unauthorized'')), w)
          else
            (let w1 = ensureUserRow uid w;
                 pdfFile = pdf req;
                 imgs = images req
             in if pdfFile = None \<and> length imgs = 0
                then Some ((400, Error_body msg_no_input), w1)
                else
                  (let pdfText = extractedText pdfFile;
                       summaryLength = summaryLength_for pdfText
                   in case autoRasterize pdfFile pdfText imgs w1 of
                        (Inl resp, w2) \<Rightarrow> Some (resp, w2)
                      | (Inr autoPdfImages, w2) \<Rightarrow>
                          (case summarize env pdfText summaryLength imgs autoPdfImages w2 of
                             None \<Rightarrow> None
                           | Some (Inl e, w3) \<Rightarrow> Some (server_error e, w3)
                           | Some (Inr raw, w3) \<Rightarrow>
                               (case parseSummary (JSON_parse env) raw of
                                  None \<Rightarrow>
                                    Some ((500, Error_raw_body msg_not_json (js_slice raw 0 300)),
                                          w3)
                                | Some parsed \<Rightarrow>
                                    Some (persist env uid pdfFile pdfText imgs autoPdfImages
                                            parsed w3))))))"

section \<open>The delete route (\<open>DELETE /summary/{id}\<close>)\<close>

text \<open>
  \<^verbatim>\<open>
  export async function DELETE(req, { params }) {
      const { userId } = await auth();
      if (!userId) return NextResponse.json({ error: "Unauthorized" }, { status: 401 });
      const deleted = await prisma.summary.deleteMany({
          where: { id: params.id, userId: userId } });
      if (deleted.count === 0) return NextResponse.json({ error: "Not found" }, { status: 404 });
      return NextResponse.json({ success: true });
  }
  \<close>
\<close>

datatype delete_body = Delete_error js_string | Delete_success

definition deleteMany :: "js_string \<Rightarrow> js_string \<Rightarrow> world \<Rightarrow> nat \<times> world" where
  "deleteMany i uid w =
     (length (filter (\<lambda>r. row_id r = i \<and> userId r = uid) (summaries w)),
      w\<lparr>summaries := filter (\<lambda>r. \<not> (row_id r = i \<and> userId r = uid)) (summaries w)\<rparr>)"

definition DELETE :: "js_string option \<Rightarrow> js_string \<Rightarrow> world \<Rightarrow> (nat \<times> delete_body) \<times> world" where
  "DELETE auth_userId params_id w =
     (case auth_userId of
        None \<Rightarrow> ((401, Delete_error (str ''Unauthorized'')), w)
      | Some uid \<Rightarrow>
          if uid = [] then ((401, Delete_error (str ''Unauthorized'')), w)
          else (case deleteMany params_id uid w of
                  (count, w') \<Rightarrow>
                    if count = 0 then ((404, Delete_error (str ''Not found'')), w')
                    else ((200, Delete_success), w')))"

section \<open>A reference \<open>JSON.parse\<close>\<close>

text \<open>
  The theorems below hold for whatever \<open>JSON.parse\<close> does. To run the route on concrete
  responses, this is a parser for the JSON grammar of ECMA-404: whitespace is SP, TAB,
  LF and CR; a string may not hold a raw control character; a number has no leading
  zero. The recursion carries a counter that starts above the length of the text; every
  nested value and every further member or element takes one unit of it.
\<close>

definition json_ws :: "code_unit \<Rightarrow> bool" where
  "json_ws c \<longleftrightarrow> c \<in> {0x20, 0x9, 0xA, 0xD}"

definition is_digit :: "code_unit \<Rightarrow> bool" where
  "is_digit c \<longleftrightarrow> 0x30 \<le> c \<and> c \<le> 0x39"

definition hex_val :: "code_unit \<Rightarrow> code_unit option" where
  "hex_val c =
     (if 0x30 \<le> c \<and> c \<le> 0x39 then Some (c - 0x30)
      else if 0x41 \<le> c \<and> c \<le> 0x46 then Some (c - 0x41 + 10)
      else if 0x61 \<le> c \<and> c \<le> 0x66 then Some (c - 0x61 + 10)
      else None)"

definition unescape :: "code_unit \<Rightarrow> code_unit option" where
  "unescape e =
     (if e = 0x22 \<or> e = 0x5C \<or> e = 0x2F then Some e
      else if e = 0x62 then Some 0x8
      else if e = 0x66 then Some 0xC
      else if e = 0x6E then Some 0xA
      else if e = 0x72 then Some 0xD
      else if e = 0x74 then Some 0x9
      else None)"

text \<open>The characters of a string after its opening quote, and what follows the closing one.\<close>

fun json_string_body :: "js_string \<Rightarrow> js_string \<Rightarrow> (js_string \<times> js_string) option" where
  "json_string_body [] acc = None"
| "json_string_body (c # r) acc =
     (if c = 0x22 then Some (acc, r)
      else if c = 0x5C then
        (case r of
           [] \<Rightarrow> None
         | e # r1 \<Rightarrow>
             if e = 0x75 then
               (case r1 of
                  h1 # h2 # h3 # h4 # r2 \<Rightarrow>
                    (case (hex_val h1, hex_val h2, hex_val h3, hex_val h4) of
                       (Some x1, Some x2, Some x3, Some x4) \<Rightarrow>
                         json_string_body r2 (acc @ [((x1 * 16 + x2) * 16 + x3) * 16 + x4])
                     | _ \<Rightarrow> None)
                | _ \<Rightarrow> None)
             else (case unescape e of
                     None \<Rightarrow> None
                   | Some x \<Rightarrow> json_string_body r1 (acc @ [x])))
      else if c < 0x20 then None
      else json_string_body r (acc @ [c]))"

text \<open>The lexeme of a number at the head of the text, and the rest.\<close>

definition json_number :: "js_string \<Rightarrow> (js_string \<times> js_string) option" where
  "json_number s =
     (let sign = takeWhile (\<lambda>c. c = 0x2D) (take 1 s);
          s1 = drop (length sign) s;
          whole = takeWhile is_digit s1;
          s2 = dropWhile is_digit s1;
          frac = (if take 1 s2 = [0x2E] then 0x2E # takeWhile is_digit (drop 1 s2) else []);
          s3 = drop (length frac) s2;
          mark = takeWhile (\<lambda>c. c = 0x65 \<or> c = 0x45) (take 1 s3);
          esign = (if mark = [] then []
                   else takeWhile (\<lambda>c. c = 0x2B \<or> c = 0x2D) (take 1 (drop 1 s3)));
          edigits = (if mark = [] then []
                     else takeWhile is_digit (drop (1 + length esign) s3));
          ex = mark @ esign @ edigits
      in if whole = [] \<or> (1 < length whole \<and> hd whole = 0x30) then None
         else if length frac = 1 then None
         else if mark \<noteq> [] \<and> edigits = [] then None
         else Some (sign @ whole @ frac @ ex, drop (length ex) s3))"

fun json_value :: "nat \<Rightarrow> js_string \<Rightarrow> (json \<times> js_string) option"
  and json_elements :: "nat \<Rightarrow> js_string \<Rightarrow> json list \<Rightarrow> (json \<times> js_string) option"
  and json_members ::
    "nat \<Rightarrow> js_string \<Rightarrow> (js_string \<times> json) list \<Rightarrow> (json \<times> js_string) option" where
  "json_value 0 s = None"
| "json_value (Suc n) s =
     (case dropWhile json_ws s of
        [] \<Rightarrow> None
      | c # r \<Rightarrow>
          if c = 0x7B then
            (case dropWhile json_ws r of
               [] \<Rightarrow> None
             | c1 # r1 \<Rightarrow> if c1 = 0x7D then Some (JObject [], r1) else json_members n r [])
          else if c = 0x5B then
            (case dropWhile json_ws r of
               [] \<Rightarrow> None
             | c1 # r1 \<Rightarrow> if c1 = 0x5D then Some (JArray [], r1) else json_elements n r [])
          else if c = 0x22 then
            (case json_string_body r [] of
               None \<Rightarrow> None
             | Some (t, r1) \<Rightarrow> Some (JString t, r1))
          else if take 4 (c # r) = str ''true'' then Some (JBool True, drop 4 (c # r))
          else if take 5 (c # r) = str ''false'' then Some (JBool False, drop 5 (c # r))
          else if take 4 (c # r) = str ''null'' then Some (JNull, drop 4 (c # r))
          else (case json_number (c # r) of
                  None \<Rightarrow> None
                | Some (t, r1) \<Rightarrow> Some (JNumber t, r1)))"
| "json_elements 0 s acc = None"
| "json_elements (Suc n) s acc =
     (case json_value n s of
        None \<Rightarrow> None
      | Some (v, r) \<Rightarrow>
          (case dropWhile json_ws r of
             [] \<Rightarrow> None
           | c # r1 \<Rightarrow>
               if c = 0x2C then json_elements n r1 (acc @ [v])
               else if c = 0x5D then Some (JArray (acc @ [v]), r1)
               else None))"
| "json_members 0 s acc = None"
| "json_members (Suc n) s acc =
     (case dropWhile json_ws s of
        [] \<Rightarrow> None
      | q # r \<Rightarrow>
          if q \<noteq> 0x22 then None
          else (case json_string_body r [] of
                  None \<Rightarrow> None
                | Some (k, r1) \<Rightarrow>
                    (case dropWhile json_ws r1 of
                       [] \<Rightarrow> None
                     | c # r2 \<Rightarrow>
                         if c \<noteq> 0x3A then None
                         else (case json_value n r2 of
                                 None \<Rightarrow> None
                               | Some (v, r3) \<Rightarrow>
                                   (case dropWhile json_ws r3 of
                                      [] \<Rightarrow> None
                                    | d # r4 \<Rightarrow>
                                        if d = 0x2C then json_members n r4 (acc @ [(k, v)])
                                        else if d = 0x7D then Some (JObject (acc @ [(k, v)]), r4)
                                        else None)))))"

definition json_parse :: "js_string \<Rightarrow> json option" where
  "json_parse s =
     (case json_value (Suc (length s)) s of
        None \<Rightarrow> None
      | Some (v, r) \<Rightarrow> if dropWhile json_ws r = [] then Some v else None)"

section \<open>Example requests\<close>

text \<open>
  Concrete inputs on which the route is run below. The model's answer is the
  specification's own scenario: a JSON object wrapped in prose.
\<close>

definition object0 :: js_string where
  "object0 =
     str ''{'' @ [0x22] @ str ''summary'' @ [0x22] @ str '':'' @ [0x22]
     @ str ''...'' @ [0x22] @ str '','' @ [0x22] @ str ''keywords'' @ [0x22]
     @ str '':['' @ [0x22] @ str ''a'' @ [0x22] @ str '','' @ [0x22] @ str ''b''
     @ [0x22] @ str '']}''"

text \<open>The value that \<open>object0\<close> denotes, and the text between its braces.\<close>

definition value0 :: json where
  "value0 = JObject [(str ''summary'', JString (str ''...'')),
                     (str ''keywords'', JArray [JString (str ''a''), JString (str ''b'')])]"

definition inner0 :: js_string where
  "inner0 = butlast (tl object0)"

definition reply0 :: js_string where
  "reply0 = str ''Here is the result: '' @ object0 @ str '' Thanks!''"

definition env0 :: env where
  "env0 = \<lparr>JSON_parse = json_parse,
            generateContent = (\<lambda>k parts. Resolved (Some reply0)),
            fresh_id = str ''s1'',
            now = 0\<rparr>"

definition w0 :: world where
  "w0 = \<lparr>users = [], summaries = [], model_calls = [], raster_attempts = 0\<rparr>"

text \<open>A scanned PDF: no text layer, and rendering a page throws.\<close>

definition pdf_scanned :: pdf_upload where
  "pdf_scanned = \<lparr>name = str ''scan.pdf'', text_layer = Some [],
                   meta_pages = Some (Some 3), render_page = (\<lambda>i. None)\<rparr>"

definition req_scanned :: request where
  "req_scanned = \<lparr>has_api_key = True, caller = Some (str ''u1''),
                   pdf = Some pdf_scanned, images = []\<rparr>"

text \<open>A PDF with a short text layer, and one with 15000 letters.\<close>

definition pdf_short :: pdf_upload where
  "pdf_short = \<lparr>name = str ''note.pdf'', text_layer = Some (str ''hello''),
                 meta_pages = Some (Some 1), render_page = (\<lambda>i. None)\<rparr>"

definition req_short :: request where
  "req_short = \<lparr>has_api_key = True, caller = Some (str ''u1''),
                 pdf = Some pdf_short, images = []\<rparr>"

definition pdf_long :: pdf_upload where
  "pdf_long = \<lparr>name = str ''book.pdf'', text_layer = Some (replicate 15000 0x61),
                meta_pages = Some (Some 9), render_page = (\<lambda>i. None)\<rparr>"

definition req_long :: request where
  "req_long = \<lparr>has_api_key = True, caller = Some (str ''u1''),
                pdf = Some pdf_long, images = []\<rparr>"

text \<open>What the short request is expected to store and to answer under \<open>env0\<close>.\<close>

definition row_short :: summary_row where
  "row_short = \<lparr>row_id = str ''s1'', userId = str ''u1'', source = SummarySource_pdf,
                 row_title = default_title, row_summary = str ''...'',
                 row_keywords = JArray [JString (str ''a''), JString (str ''b'')],
                 inputText = Some (str ''hello''), pdfName = Some (str ''note.pdf''),
                 imageCount = Some 0, createdAt = 0\<rparr>"

definition view_short :: summary_view where
  "view_short = \<lparr>v_id = str ''s1'', v_createdAt = 0, v_source = str ''pdf'',
                  v_title = default_title, v_summary = str ''...'',
                  v_keywords = [str ''a'', str ''b''],
                  v_pdfName = Some (str ''note.pdf''), v_imageCount = Some 0\<rparr>"

definition w_short :: world where
  "w_short = \<lparr>users = [str ''u1''], summaries = [row_short],
               model_calls = [[Text_part (single_prompt_text (str ''hello'') (str ''16-22'') False)]],
               raster_attempts = 0\<rparr>"

text \<open>Five uploaded images and no PDF.\<close>

definition image_ok :: image_upload where
  "image_ok = \<lparr>compressed = Inr (str ''AA'')\<rparr>"

definition req_images5 :: request where
  "req_images5 = \<lparr>has_api_key = True, caller = Some (str ''u1''), pdf = None,
                   images = [image_ok, image_ok, image_ok, image_ok, image_ok]\<rparr>"

text \<open>What the request with five images is expected to store, answer and send.\<close>

definition row_images5 :: summary_row where
  "row_images5 = \<lparr>row_id = str ''s1'', userId = str ''u1'', source = SummarySource_image,
                   row_title = default_title, row_summary = str ''...'',
                   row_keywords = JArray [JString (str ''a''), JString (str ''b'')],
                   inputText = Some [], pdfName = None,
                   imageCount = Some 5, createdAt = 0\<rparr>"

definition view_images5 :: summary_view where
  "view_images5 = \<lparr>v_id = str ''s1'', v_createdAt = 0, v_source = str ''image'',
                    v_title = default_title, v_summary = str ''...'',
                    v_keywords = [str ''a'', str ''b''],
                    v_pdfName = None, v_imageCount = Some 5\<rparr>"

definition w_images5 :: world where
  "w_images5 = \<lparr>users = [str ''u1''], summaries = [row_images5],
                 model_calls = [[Text_part (single_prompt_text [] (str ''18-24'') True),
                                 InlineData (str ''image/jpeg'') (str ''AA''),
                                 InlineData (str ''image/jpeg'') (str ''AA''),
                                 InlineData (str ''image/jpeg'') (str ''AA''),
                                 InlineData (str ''image/jpeg'') (str ''AA'')]],
                 raster_attempts = 0\<rparr>"

text \<open>The state after the scanned PDF has been refused.\<close>

definition w_scanned :: world where
  "w_scanned = \<lparr>users = [str ''u1''], summaries = [], model_calls = [],
                 raster_attempts = 1\<rparr>"

text \<open>A model that answers in prose alone, and the state after its answer to the short request.\<close>

definition env_prose :: env where
  "env_prose = \<lparr>JSON_parse = json_parse,
                 generateContent = (\<lambda>k parts. Resolved (Some (str ''no json here''))),
                 fresh_id = str ''s1'',
                 now = 0\<rparr>"

definition w_prose :: world where
  "w_prose = \<lparr>users = [str ''u1''], summaries = [],
               model_calls = [[Text_part (single_prompt_text (str ''hello'') (str ''16-22'') False)]],
               raster_attempts = 0\<rparr>"

text \<open>
  A model that answers with a title of 150 code units and an empty keyword list, and
  what the short request is expected to store and to answer under it.
\<close>

definition long_title :: js_string where
  "long_title =
     str ''Chapter 1 of the lecture notes; Chapter 2 of the lecture not''
     @ str ''es; Chapter 3 of the lecture notes; Chapter 4 of the lecture''
     @ str '' notes; Chapter 5 of the lectu''"

definition reply_titled :: js_string where
  "reply_titled =
     str ''{'' @ [0x22] @ str ''title'' @ [0x22] @ str '':'' @ [0x22] @ long_title
     @ [0x22] @ str '','' @ [0x22] @ str ''summary'' @ [0x22] @ str '':'' @ [0x22]
     @ str ''...'' @ [0x22] @ str '','' @ [0x22] @ str ''keywords'' @ [0x22]
     @ str '':[]}''"

definition value_titled :: json where
  "value_titled = JObject [(str ''title'', JString long_title),
                           (str ''summary'', JString (str ''...'')),
                           (str ''keywords'', JArray [])]"

definition env_titled :: env where
  "env_titled = \<lparr>JSON_parse = json_parse,
                  generateContent = (\<lambda>k parts. Resolved (Some reply_titled)),
                  fresh_id = str ''s1'',
                  now = 0\<rparr>"

definition row_titled :: summary_row where
  "row_titled = \<lparr>row_id = str ''s1'', userId = str ''u1'', source = SummarySource_pdf,
                  row_title = take 140 long_title, row_summary = str ''...'',
                  row_keywords = JArray (map JString default_keywords),
                  inputText = Some (str ''hello''), pdfName = Some (str ''note.pdf''),
                  imageCount = Some 0, createdAt = 0\<rparr>"

definition view_titled :: summary_view where
  "view_titled = \<lparr>v_id = str ''s1'', v_createdAt = 0, v_source = str ''pdf'',
                   v_title = take 140 long_title, v_summary = str ''...'',
                   v_keywords = default_keywords,
                   v_pdfName = Some (str ''note.pdf''), v_imageCount = Some 0\<rparr>"

definition w_titled :: world where
  "w_titled = \<lparr>users = [str ''u1''], summaries = [row_titled],
                model_calls = [[Text_part (single_prompt_text (str ''hello'') (str ''16-22'') False)]],
                raster_attempts = 0\<rparr>"

text \<open>
  A scanned PDF of seven pages that render, and what the request with it alone is
  expected to store, answer and send under \<open>env0\<close>.
\<close>

definition pdf_pages :: pdf_upload where
  "pdf_pages = \<lparr>name = str ''scan7.pdf'', text_layer = None,
                 meta_pages = Some (Some 7), render_page = (\<lambda>i. Some (str ''PG'' @ decimal i))\<rparr>"

definition req_pages :: request where
  "req_pages = \<lparr>has_api_key = True, caller = Some (str ''u1''),
                 pdf = Some pdf_pages, images = []\<rparr>"

definition row_pages :: summary_row where
  "row_pages = \<lparr>row_id = str ''s1'', userId = str ''u1'', source = SummarySource_pdf_image,
                 row_title = default_title, row_summary = str ''...'',
                 row_keywords = JArray [JString (str ''a''), JString (str ''b'')],
                 inputText = Some [], pdfName = Some (str ''scan7.pdf''),
                 imageCount = Some 2, createdAt = 0\<rparr>"

definition view_pages :: summary_view where
  "view_pages = \<lparr>v_id = str ''s1'', v_createdAt = 0, v_source = str ''pdf+image'',
                  v_title = default_title, v_summary = str ''...'',
                  v_keywords = [str ''a'', str ''b''],
                  v_pdfName = Some (str ''scan7.pdf''), v_imageCount = Some 2\<rparr>"

definition w_pages :: world where
  "w_pages = \<lparr>users = [str ''u1''], summaries = [row_pages],
               model_calls = [[Text_part (single_prompt_text [] (str ''18-24'') True),
                               InlineData (str ''image/jpeg'') (str ''PG0''),
                               InlineData (str ''image/jpeg'') (str ''PG1'')]],
               raster_attempts = 1\<rparr>"

text \<open>A \<open>Summary\<close> table with one row of user \<open>u1\<close> and one of user \<open>u2\<close>.\<close>

definition row_of :: "js_string \<Rightarrow> js_string \<Rightarrow> summary_row" where
  "row_of i uid = \<lparr>row_id = i, userId = uid, source = SummarySource_pdf,
                    row_title = default_title, row_summary = str ''text'',
                    row_keywords = JArray [], inputText = None, pdfName = None,
                    imageCount = None, createdAt = 0\<rparr>"

definition w_two :: world where
  "w_two = \<lparr>users = [str ''u1'', str ''u2''],
             summaries = [row_of (str ''a'') (str ''u1''), row_of (str ''b'') (str ''u2'')],
             model_calls = [], raster_attempts = 0\<rparr>"

text \<open>Whether a part of a prompt is an attached image.\<close>

fun is_inlineData :: "part \<Rightarrow> bool" where
  "is_inlineData (InlineData _ _) = True"
| "is_inlineData (Text_part _) = False"

text \<open>A model endpoint that answers every call.\<close>

definition responsive :: "env \<Rightarrow> bool" where
  "responsive env \<longleftrightarrow> (\<forall>k parts. \<exists>x. generateContent env k parts = Resolved x)"

section \<open>Properties of the chunker\<close>

lemma windows_Nil [simp]: "windows n [] = []"
  by (simp add: windows.simps)

lemma windows_step:
  "0 < n \<Longrightarrow> xs \<noteq> [] \<Longrightarrow> windows n xs = take n xs # windows n (drop n xs)"
  by (subst windows.simps) simp

lemma concat_windows: "0 < n \<Longrightarrow> concat (windows n xs) = xs"
proof (induction n xs rule: windows.induct)
  case (1 n xs)
  show ?case
  proof (cases "xs = []")
    case True
    then show ?thesis by simp
  next
    case False
    with 1 show ?thesis by (simp add: windows_step)
  qed
qed

lemma length_windows: "0 < n \<Longrightarrow> length (windows n xs) = (length xs + n - 1) div n"
proof (induction n xs rule: windows.induct)
  case (1 n xs)
  show ?case
  proof (cases "xs = []")
    case True
    with 1 show ?thesis by simp
  next
    case False
    note ne = this
    show ?thesis
    proof (cases "length xs \<le> n")
      case True
      from ne obtain m where m: "length xs = Suc m" by (cases xs) auto
      with True have "m < n" by simp
      then have "(Suc m + n - 1) div n = 1"
        by (intro div_nat_eqI) simp_all
      with m have "(length xs + n - 1) div n = 1" by simp
      with ne 1 True show ?thesis by (simp add: windows_step)
    next
      case False
      then have "length xs + n - 1 = (length xs - n + n - 1) + n" by simp
      then have "(length xs + n - 1) div n = Suc ((length xs - n + n - 1) div n)"
        using 1 by (metis div_add_self2 less_numeral_extra(3) Suc_eq_plus1)
      with ne 1 show ?thesis by (simp add: windows_step)
    qed
  qed
qed

lemma nth_windows:
  "0 < n \<Longrightarrow> k < length (windows n xs) \<Longrightarrow> windows n xs ! k = take n (drop (k * n) xs)"
proof (induction n xs arbitrary: k rule: windows.induct)
  case (1 n xs)
  from "1.prems" have ne: "xs \<noteq> []" by auto
  show ?case
  proof (cases k)
    case 0
    with ne 1 show ?thesis by (simp add: windows_step)
  next
    case (Suc j)
    with ne "1.prems" have "j < length (windows n (drop n xs))"
      by (simp add: windows_step)
    with "1.IH" ne "1.prems" have "windows n (drop n xs) ! j = take n (drop (j * n) (drop n xs))"
      by simp
    with ne "1.prems" Suc show ?thesis
      by (simp add: windows_step add.commute)
  qed
qed

lemma chunk_loop_windows:
  "0 < n \<Longrightarrow> chunk_loop t n i out = Some (out @ windows n (drop i t))"
proof (induction "length t - i" arbitrary: i out rule: less_induct)
  case less
  show ?case
  proof (cases "i < length t")
    case False
    then show ?thesis by (subst chunk_loop.simps) simp
  next
    case True
    then have "length t - (i + n) < length t - i" using less.prems by simp
    from less.hyps [OF this less.prems]
    have "chunk_loop t n (i + n) (out @ [js_slice t i (i + n)])
            = Some ((out @ [js_slice t i (i + n)]) @ windows n (drop (i + n) t))" .
    moreover from True have "drop i t \<noteq> []" by simp
    then have "windows n (drop i t) = take n (drop i t) # windows n (drop (i + n) t)"
      using less.prems by (simp add: windows_step add.commute)
    ultimately show ?thesis using True
      by (subst chunk_loop.simps) (simp add: js_slice_def)
  qed
qed

lemma chunkText_windows: "0 < n \<Longrightarrow> chunkText s n = Some (windows n (trim s))"
  by (simp add: chunkText_def Let_def chunk_loop_windows)

lemma trim_replicate: "\<not> is_ws c \<Longrightarrow> trim (replicate n c) = replicate n c"
  by (simp add: trim_def)

text \<open>
  Claim C5. For every string \<open>s\<close>, \<open>chunkText(s, 9000)\<close> returns. Its result is empty when
  the trimmed input is empty; the chunks, concatenated in order, give the trimmed input
  back; chunk \<open>k\<close> is the slice of the trimmed input from \<open>9000 k\<close> to \<open>9000 k + 9000\<close>, so
  the chunks are contiguous and do not overlap; every chunk but the last has exactly 9000
  code units and the last has between 1 and 9000; there are
  \<open>\<lceil>length (trim s) / 9000\<rceil>\<close> of them. The result is a function of the input alone.
\<close>

theorem chunkText_9000_slices:
  "\<exists>chunks. chunkText s 9000 = Some chunks
     \<and> (trim s = [] \<longrightarrow> chunks = [])
     \<and> concat chunks = trim s
     \<and> length chunks = (length (trim s) + 8999) div 9000
     \<and> (\<forall>k < length chunks. chunks ! k = js_slice (trim s) (k * 9000) (k * 9000 + 9000))
     \<and> (\<forall>k. Suc k < length chunks \<longrightarrow> length (chunks ! k) = 9000)
     \<and> (chunks \<noteq> [] \<longrightarrow> 0 < length (last chunks) \<and> length (last chunks) \<le> 9000)"
proof -
  define t where "t = trim s"
  define chunks where "chunks = windows 9000 t"
  have ret: "chunkText s 9000 = Some chunks"
    by (simp add: chunkText_windows chunks_def t_def)
  have empty: "t = [] \<longrightarrow> chunks = []"
    by (simp add: chunks_def)
  have cat: "concat chunks = t"
    by (simp add: chunks_def concat_windows)
  have len: "length chunks = (length t + 8999) div 9000"
    by (simp add: chunks_def length_windows)
  have nth: "chunks ! k = js_slice t (k * 9000) (k * 9000 + 9000)" if "k < length chunks" for k
    using that by (simp add: chunks_def nth_windows js_slice_def)
  have full: "length (chunks ! k) = 9000" if "Suc k < length chunks" for k
  proof -
    from that len have "Suc k < (length t + 8999) div 9000" by simp
    then have "k * 9000 + 9000 \<le> length t" by arith
    moreover from that have "k < length chunks" by simp
    ultimately show ?thesis by (simp add: nth js_slice_def)
  qed
  have last: "0 < length (last chunks) \<and> length (last chunks) \<le> 9000" if "chunks \<noteq> []"
  proof -
    from that obtain j where j: "length chunks = Suc j" by (cases chunks) auto
    with that have l: "last chunks = chunks ! j" by (simp add: last_conv_nth)
    from j have "j < length chunks" by simp
    then have c: "chunks ! j = js_slice t (j * 9000) (j * 9000 + 9000)" by (rule nth)
    from j len have "j < (length t + 8999) div 9000" by simp
    then have "j * 9000 < length t" by arith
    with l c show ?thesis by (simp add: js_slice_def)
  qed
  from ret empty cat len nth full last show ?thesis
    unfolding t_def by blast
qed

text \<open>A text of 9001 letters is cut into a chunk of 9000 and a chunk of one.\<close>

theorem chunkText_9000_slices_witness:
  "chunkText (replicate 9001 0x61) 9000 = Some [replicate 9000 0x61, [0x61]]"
proof -
  have tr: "trim (replicate 9001 0x61) = replicate 9001 0x61"
    by (rule trim_replicate) (simp add: is_ws_def)
  from chunkText_9000_slices [of "replicate 9001 0x61"]
  obtain chunks where ret: "chunkText (replicate 9001 0x61) 9000 = Some chunks"
    and len: "length chunks = (length (trim (replicate 9001 (0x61::code_unit))) + 8999) div 9000"
    and nth: "\<forall>k < length chunks.
                chunks ! k = js_slice (trim (replicate 9001 0x61)) (k * 9000) (k * 9000 + 9000)"
    by blast
  from len have l2: "length chunks = 2" by (simp add: tr)
  then obtain a b where ab: "chunks = [a, b]"
    by (cases chunks; cases "tl chunks") auto
  from nth l2 have "chunks ! 0 = js_slice (replicate 9001 0x61) 0 9000"
    and "chunks ! 1 = js_slice (replicate 9001 0x61) 9000 18000"
    by (simp_all add: tr)
  with ab have "a = replicate 9000 0x61" and "b = [0x61]"
    by (simp_all add: js_slice_def)
  with ab ret show ?thesis by simp
qed

section \<open>What each stage of the route leaves unchanged\<close>

lemma ensureUserRow_frame:
  "summaries (ensureUserRow uid w) = summaries w"
  "model_calls (ensureUserRow uid w) = model_calls w"
  "raster_attempts (ensureUserRow uid w) = raster_attempts w"
  by (simp_all add: ensureUserRow_def)

lemma generate_frame:
  assumes "generate env parts w = (r, w')"
  shows "summaries w' = summaries w" and "users w' = users w"
    and "raster_attempts w' = raster_attempts w"
    and "model_calls w' = model_calls w @ [parts]"
  using assms by (auto simp: generate_def Let_def split: gen_result.splits option.splits)

lemma chunk_calls_frame:
  "chunk_calls env chunks i acc w = (r, w') \<Longrightarrow>
     summaries w' = summaries w \<and> users w' = users w \<and> raster_attempts w' = raster_attempts w"
proof (induction env chunks i acc w rule: chunk_calls.induct)
  case (1 env chunks i partialJsons w)
  show ?case
  proof (cases "i < length chunks")
    case False
    with "1.prems" show ?thesis by (simp add: chunk_calls.simps)
  next
    case True
    obtain x w1 where g: "geminiSummarizeTextChunkAcademic env (chunks ! i) w = (x, w1)"
      by (cases "geminiSummarizeTextChunkAcademic env (chunks ! i) w")
    then have f: "summaries w1 = summaries w" "users w1 = users w"
      "raster_attempts w1 = raster_attempts w"
      by (auto simp: geminiSummarizeTextChunkAcademic_def dest: generate_frame)
    show ?thesis
    proof (cases x)
      case (Inl e)
      with True g "1.prems" f show ?thesis by (simp add: chunk_calls.simps)
    next
      case (Inr raw)
      with True g "1.prems" have
        "chunk_calls env chunks (i + 1)
           (partialJsons @ [str ''CHUNK_'' @ decimal (i + 1) @ str '': '' @ raw]) w1 = (r, w')"
        by (simp add: chunk_calls.simps)
      from "1.IH" [OF True g [symmetric] Inr this] f show ?thesis by simp
    qed
  qed
qed

lemma summarizeFull_frame:
  assumes "summarizeFullPdfTextAcademic env t sl w = Some (r, w')"
  shows "summaries w' = summaries w \<and> users w' = users w \<and> raster_attempts w' = raster_attempts w"
proof -
  from assms obtain chunks where c: "chunkText t 9000 = Some chunks"
    by (auto simp: summarizeFullPdfTextAcademic_def split: option.splits)
  show ?thesis
  proof (cases "length chunks = 0")
    case True
    with assms c show ?thesis by (simp add: summarizeFullPdfTextAcademic_def)
  next
    case False
    obtain x w1 where cc: "chunk_calls env chunks 0 [] w = (x, w1)"
      by (cases "chunk_calls env chunks 0 [] w")
    note f1 = chunk_calls_frame [OF cc]
    show ?thesis
    proof (cases x)
      case (Inl e)
      with assms c False cc f1 show ?thesis by (simp add: summarizeFullPdfTextAcademic_def)
    next
      case (Inr ps)
      with assms c False cc have "generate env (merge_prompt (join [0xA, 0xA] ps) sl) w1 = (r, w')"
        by (simp add: summarizeFullPdfTextAcademic_def geminiFinalSummaryAcademic_def)
      from generate_frame [OF this] f1 show ?thesis by simp
    qed
  qed
qed

lemma summarizeSingleCall_frame:
  assumes "summarizeSingleCall env t sl imgs auto h w = (r, w')"
  shows "summaries w' = summaries w \<and> users w' = users w \<and> raster_attempts w' = raster_attempts w"
  using assms
  by (auto simp: summarizeSingleCall_def split: sum.splits dest: generate_frame)

lemma summarize_frame:
  assumes "summarize env t sl imgs auto w = Some (r, w')"
  shows "summaries w' = summaries w \<and> users w' = users w \<and> raster_attempts w' = raster_attempts w"
  using assms
  by (auto simp: summarize_def Let_def split: if_splits
      dest: summarizeFull_frame summarizeSingleCall_frame)

lemma autoRasterize_frame:
  assumes "autoRasterize pdfFile t imgs w = (r, w')"
  shows "summaries w' = summaries w" and "users w' = users w" and "model_calls w' = model_calls w"
  using assms
  by (auto simp: autoRasterize_def Let_def split: option.splits if_splits)


lemma autoRasterize_Inl:
  "autoRasterize pdfFile t imgs w = (Inl resp, w') \<Longrightarrow> fst resp = 400"
  by (auto simp: autoRasterize_def Let_def split: option.splits if_splits)

lemma POST_unfold:
  assumes "has_api_key req" and "caller req = Some uid" and "uid \<noteq> []"
    and "\<not> (pdf req = None \<and> images req = [])"
  shows "POST env req w =
     (case autoRasterize (pdf req) (extractedText (pdf req)) (images req) (ensureUserRow uid w) of
        (Inl resp, w2) \<Rightarrow> Some (resp, w2)
      | (Inr autoPdfImages, w2) \<Rightarrow>
          (case summarize env (extractedText (pdf req)) (summaryLength_for (extractedText (pdf req)))
                  (images req) autoPdfImages w2 of
             None \<Rightarrow> None
           | Some (Inl e, w3) \<Rightarrow> Some (server_error e, w3)
           | Some (Inr raw, w3) \<Rightarrow>
               (case parseSummary (JSON_parse env) raw of
                  None \<Rightarrow> Some ((500, Error_raw_body msg_not_json (js_slice raw 0 300)), w3)
                | Some parsed \<Rightarrow>
                    Some (persist env uid (pdf req) (extractedText (pdf req)) (images req)
                            autoPdfImages parsed w3))))"
  by (simp add: POST_def Let_def assms)

lemma POST_200:
  assumes "POST env req w = Some ((200, b), w')"
  shows "\<exists>uid auto raw parsed w2 w3.
           has_api_key req \<and> caller req = Some uid \<and> uid \<noteq> []
         \<and> autoRasterize (pdf req) (extractedText (pdf req)) (images req) (ensureUserRow uid w)
             = (Inr auto, w2)
         \<and> summarize env (extractedText (pdf req)) (summaryLength_for (extractedText (pdf req)))
              (images req) auto w2 = Some (Inr raw, w3)
         \<and> parseSummary (JSON_parse env) raw = Some parsed
         \<and> persist env uid (pdf req) (extractedText (pdf req)) (images req) auto parsed w3
             = ((200, b), w')"
proof -
  from assms have key: "has_api_key req"
    by (auto simp: POST_def split: if_splits)
  from assms key obtain uid where uid: "caller req = Some uid" "uid \<noteq> []"
    by (auto simp: POST_def split: option.splits if_splits)
  from assms key uid have some: "\<not> (pdf req = None \<and> images req = [])"
    by (auto simp: POST_def Let_def split: if_splits)
  note u = POST_unfold [OF key uid some, of env w]
  obtain x w2 where ar:
    "autoRasterize (pdf req) (extractedText (pdf req)) (images req) (ensureUserRow uid w) = (x, w2)"
    by (cases "autoRasterize (pdf req) (extractedText (pdf req)) (images req) (ensureUserRow uid w)")
  show ?thesis
  proof (cases x)
    case (Inl resp)
    with ar autoRasterize_Inl have "fst resp = 400" by blast
    with assms u ar Inl show ?thesis by auto
  next
    case (Inr auto)
    with assms u ar obtain y w3 where sm:
      "summarize env (extractedText (pdf req)) (summaryLength_for (extractedText (pdf req)))
         (images req) auto w2 = Some (y, w3)"
      by (auto split: option.splits)
    show ?thesis
    proof (cases y)
      case (Inl e)
      with assms u ar Inr sm show ?thesis by (simp add: server_error_def)
    next
      case (Inr raw)
      note raw = this
      show ?thesis
      proof (cases "parseSummary (JSON_parse env) raw")
        case None
        with assms u ar \<open>x = Inr auto\<close> sm raw show ?thesis by simp
      next
        case (Some parsed)
        with assms u ar \<open>x = Inr auto\<close> sm raw key uid show ?thesis by auto
      qed
    qed
  qed
qed

lemma POST_not_200_frame:
  assumes "POST env req w = Some ((st, b), w')" and "st \<noteq> 200"
  shows "summaries w' = summaries w"
proof (cases "has_api_key req \<and> (\<exists>uid. caller req = Some uid \<and> uid \<noteq> [])
                \<and> \<not> (pdf req = None \<and> images req = [])")
  case False
  with assms show ?thesis
    by (auto simp: POST_def Let_def ensureUserRow_frame split: option.splits if_splits)
next
  case True
  then obtain uid where key: "has_api_key req" and uid: "caller req = Some uid" "uid \<noteq> []"
    and some: "\<not> (pdf req = None \<and> images req = [])" by blast
  note u = POST_unfold [OF key uid some, of env w]
  obtain x w2 where ar:
    "autoRasterize (pdf req) (extractedText (pdf req)) (images req) (ensureUserRow uid w) = (x, w2)"
    by (cases "autoRasterize (pdf req) (extractedText (pdf req)) (images req) (ensureUserRow uid w)")
  from autoRasterize_frame(1) [OF ar] have f2: "summaries w2 = summaries w"
    by (simp add: ensureUserRow_frame)
  show ?thesis
  proof (cases x)
    case (Inl resp)
    with assms u ar f2 show ?thesis by auto
  next
    case (Inr auto)
    with assms u ar obtain y w3 where sm:
      "summarize env (extractedText (pdf req)) (summaryLength_for (extractedText (pdf req)))
         (images req) auto w2 = Some (y, w3)"
      by (auto split: option.splits)
    from summarize_frame [OF sm] f2 have f3: "summaries w3 = summaries w" by simp
    show ?thesis
    proof (cases y)
      case (Inl e)
      with assms u ar Inr sm f3 show ?thesis by (auto simp: server_error_def)
    next
      case (Inr raw)
      with assms u ar \<open>x = Inr auto\<close> sm f3 show ?thesis
        by (auto simp: persist_def Let_def split: option.splits)
    qed
  qed
qed

section \<open>The example requests, evaluated\<close>

lemma json_parse_reply0: "json_parse reply0 = None"
  by (simp add: reply0_def object0_def json_parse_def str_def json_ws_def json_number_def
      is_digit_def)

lemma json_parse_object0:
  "json_parse object0 =
     Some (JObject [(str ''summary'', JString (str ''...'')),
                    (str ''keywords'', JArray [JString (str ''a''), JString (str ''b'')])])"
  by (simp add: object0_def json_parse_def str_def json_ws_def unescape_def)

lemma extractJson_reply0: "extractJson reply0 = Some object0"
  by (simp add: reply0_def object0_def extractJson_def indexOf_def lastIndexOf_def
      js_slice_def str_def)

lemma object0_not_empty: "object0 \<noteq> []"
  by (simp add: object0_def str_def)

lemma normalizeSummary_object0:
  "normalizeSummary (JObject [(str ''summary'', JString (str ''...'')),
                    (str ''keywords'', JArray [JString (str ''a''), JString (str ''b'')])])
   = Some \<lparr>title = None, summary = str ''...'', keywords = [str ''a'', str ''b'']\<rparr>"
  by (simp add: normalizeSummary_def str_def)

lemma parseSummary_reply0:
  "parseSummary json_parse reply0
     = Some \<lparr>title = None, summary = str ''...'', keywords = [str ''a'', str ''b'']\<rparr>"
  by (simp add: parseSummary_def json_parse_reply0 extractJson_reply0 object0_not_empty
      json_parse_object0 normalizeSummary_object0)

lemma trim_hello: "trim (str ''hello'') = str ''hello''"
  by (simp add: trim_def str_def is_ws_def)

lemma POST_req_short:
  "POST env0 req_short w0 = Some ((200, Ok_body view_short), w_short)"
proof -
  have len: "length (str ''hello'') = 5" by (simp add: str_def)
  have ne: "str ''hello'' \<noteq> []" by (simp add: str_def)
  have u: "str ''u1'' \<noteq> []" by (simp add: str_def)
  have src: "toApiSource SummarySource_pdf = str ''pdf''" "toDbSource (str ''pdf'') = SummarySource_pdf"
    by (simp_all add: toApiSource_def toDbSource_def SummarySource_pdf_def str_def)
  show ?thesis
    by (simp add: POST_def req_short_def pdf_short_def env0_def w0_def Let_def u
        ensureUserRow_def extractedText_def summaryLength_for_def len ne
        autoRasterize_def trim_hello summarize_def summarizeSingleCall_def js_slice_def
        generate_def parseSummary_reply0 persist_def new_row_def view_of_def sourceUI_def src
        view_short_def w_short_def row_short_def)
qed


section \<open>Validation and persistence\<close>

lemma strings_only_filter:
  "map JString (strings_only xs) = filter (\<lambda>k. \<exists>s. k = JString s) xs"
  by (induction xs rule: strings_only.induct) auto

lemma default_title_not_empty: "default_title \<noteq> []"
  by (simp add: default_title_def)

lemma persist_row:
  "persist env uid pdfFile t imgs auto parsed w = (resp, w') \<Longrightarrow>
     resp = (200, Ok_body (view_of (new_row env uid pdfFile t imgs auto parsed)))
     \<and> w' = w\<lparr>summaries := summaries w @ [new_row env uid pdfFile t imgs auto parsed]\<rparr>"
  by (auto simp: persist_def Let_def)

lemma POST_200_row:
  assumes "POST env req w = Some ((200, Ok_body view), w')"
  obtains uid auto raw parsed w2 w3 row where
    "autoRasterize (pdf req) (extractedText (pdf req)) (images req) (ensureUserRow uid w)
       = (Inr auto, w2)"
    and "summarize env (extractedText (pdf req)) (summaryLength_for (extractedText (pdf req)))
           (images req) auto w2 = Some (Inr raw, w3)"
    and "parseSummary (JSON_parse env) raw = Some parsed"
    and "row = new_row env uid (pdf req) (extractedText (pdf req)) (images req) auto parsed"
    and "view = view_of row"
    and "summaries w' = summaries w @ [row]"
    and "model_calls w' = model_calls w3"
proof -
  from POST_200 [OF assms] obtain uid auto raw parsed w2 w3 where
    ar: "autoRasterize (pdf req) (extractedText (pdf req)) (images req) (ensureUserRow uid w)
             = (Inr auto, w2)"
    and sm: "summarize env (extractedText (pdf req)) (summaryLength_for (extractedText (pdf req)))
              (images req) auto w2 = Some (Inr raw, w3)"
    and ps: "parseSummary (JSON_parse env) raw = Some parsed"
    and pe: "persist env uid (pdf req) (extractedText (pdf req)) (images req) auto parsed w3
             = ((200, Ok_body view), w')"
    by blast
  define row where "row = new_row env uid (pdf req) (extractedText (pdf req)) (images req) auto parsed"
  from autoRasterize_frame(1) [OF ar] summarize_frame [OF sm]
  have f: "summaries w3 = summaries w" by (simp add: ensureUserRow_frame)
  from persist_row [OF pe] have v: "view = view_of row"
    and w': "w' = w3\<lparr>summaries := summaries w3 @ [row]\<rparr>"
    by (simp_all add: row_def)
  from w' f have "summaries w' = summaries w @ [row]" and "model_calls w' = model_calls w3"
    by simp_all
  with ar sm ps row_def v show thesis by (rule that)
qed

section \<open>The source classification\<close>

lemma sourceUI_values:
  "sourceUI pdfFile h \<in> {str ''pdf'', str ''image'', str ''pdf+image''}"
  by (simp add: sourceUI_def)

lemma toApiSource_toDbSource:
  "s \<in> {str ''pdf'', str ''image'', str ''pdf+image''} \<Longrightarrow> toApiSource (toDbSource s) = s"
  by (auto simp: toApiSource_def toDbSource_def SummarySource_pdf_def SummarySource_image_def
      SummarySource_pdf_image_def str_def)

text \<open>
  Claim C7. For each of \<open>pdf\<close>, \<open>image\<close> and \<open>pdf+image\<close>, \<open>toDbSource\<close> gives a member of the
  stored enum and \<open>toApiSource\<close> of that member gives the value back. \<open>pdf+image\<close> is
  stored as \<open>pdf_image\<close>, which is read back as \<open>pdf+image\<close>; the two forms differ, the
  stored one is never the user-facing one and the other way round. A successful request
  stores the enum form of its classification and answers with the user-facing form.
\<close>

theorem source_round_trip:
  "(\<forall>s \<in> {str ''pdf'', str ''image'', str ''pdf+image''}.
       toApiSource (toDbSource s) = s
     \<and> toDbSource s \<in> {SummarySource_pdf, SummarySource_image, SummarySource_pdf_image})
   \<and> toDbSource (str ''pdf+image'') = SummarySource_pdf_image
   \<and> SummarySource_pdf_image = str ''pdf_image''
   \<and> toApiSource SummarySource_pdf_image = str ''pdf+image''
   \<and> str ''pdf+image'' \<notin> {SummarySource_pdf, SummarySource_image, SummarySource_pdf_image}
   \<and> str ''pdf_image'' \<notin> {str ''pdf'', str ''image'', str ''pdf+image''}
   \<and> (POST env req w = Some ((200, Ok_body view), w') \<longrightarrow>
        (\<exists>row ui. summaries w' = summaries w @ [row]
           \<and> ui \<in> {str ''pdf'', str ''image'', str ''pdf+image''}
           \<and> source row = toDbSource ui
           \<and> v_source view = ui))"
proof (intro conjI impI ballI)
  fix s :: js_string
  assume s: "s \<in> {str ''pdf'', str ''image'', str ''pdf+image''}"
  then show "toApiSource (toDbSource s) = s" by (rule toApiSource_toDbSource)
  show "toDbSource s \<in> {SummarySource_pdf, SummarySource_image, SummarySource_pdf_image}"
    by (simp add: toDbSource_def)
next
  show "toDbSource (str ''pdf+image'') = SummarySource_pdf_image"
    by (simp add: toDbSource_def str_def)
  show "SummarySource_pdf_image = str ''pdf_image''"
    by (simp add: SummarySource_pdf_image_def)
  show "toApiSource SummarySource_pdf_image = str ''pdf+image''"
    by (simp add: toApiSource_def SummarySource_pdf_image_def)
  show "str ''pdf+image'' \<notin> {SummarySource_pdf, SummarySource_image, SummarySource_pdf_image}"
    by (simp add: SummarySource_pdf_def SummarySource_image_def SummarySource_pdf_image_def
        str_def)
  show "str ''pdf_image'' \<notin> {str ''pdf'', str ''image'', str ''pdf+image''}"
    by (simp add: str_def)
next
  assume "POST env req w = Some ((200, Ok_body view), w')"
  then obtain uid auto parsed row where
    row: "row = new_row env uid (pdf req) (extractedText (pdf req)) (images req) auto parsed"
    and view: "view = view_of row"
    and sm: "summaries w' = summaries w @ [row]"
    by (rule POST_200_row)
  define ui where "ui = sourceUI (pdf req) (length (images req) > 0 \<or> length auto > 0)"
  have "ui \<in> {str ''pdf'', str ''image'', str ''pdf+image''}"
    unfolding ui_def by (rule sourceUI_values)
  moreover have src: "source row = toDbSource ui"
    by (simp add: row new_row_def Let_def ui_def)
  moreover have "v_source view = ui"
    using toApiSource_toDbSource [OF calculation(1)] src by (simp add: view view_of_def)
  ultimately show "\<exists>row ui. summaries w' = summaries w @ [row]
           \<and> ui \<in> {str ''pdf'', str ''image'', str ''pdf+image''}
           \<and> source row = toDbSource ui
           \<and> v_source view = ui"
    using sm by blast
qed

text \<open>The three values, one by one, and the example request, a PDF alone.\<close>

theorem source_round_trip_witness:
  "toApiSource (toDbSource (str ''pdf'')) = str ''pdf''
   \<and> toApiSource (toDbSource (str ''image'')) = str ''image''
   \<and> toApiSource (toDbSource (str ''pdf+image'')) = str ''pdf+image''
   \<and> POST env0 req_short w0 = Some ((200, Ok_body view_short), w_short)
   \<and> (\<exists>row ui. summaries w_short = summaries w0 @ [row]
           \<and> ui \<in> {str ''pdf'', str ''image'', str ''pdf+image''}
           \<and> source row = toDbSource ui
           \<and> v_source view_short = ui)"
  using source_round_trip [of env0 req_short w0 view_short w_short] POST_req_short
  by simp

section \<open>The delete route\<close>

text \<open>
  Claim C8. For a caller with an identity, \<open>DELETE\<close> answers \<open>{success: true}\<close> exactly when
  the table holds a row with the given id that the caller owns, and then removes the rows
  with that id and owner and no other; otherwise it answers 404 and the whole state,
  every user's rows included, is as before.
\<close>

theorem DELETE_only_owned:
  "uid \<noteq> [] \<Longrightarrow>
     DELETE (Some uid) i w =
       (if \<exists>r \<in> set (summaries w). row_id r = i \<and> userId r = uid
        then ((200, Delete_success),
              w\<lparr>summaries := filter (\<lambda>r. \<not> (row_id r = i \<and> userId r = uid)) (summaries w)\<rparr>)
        else ((404, Delete_error (str ''Not found'')), w))"
proof -
  assume uid: "uid \<noteq> []"
  let ?own = "\<lambda>r. row_id r = i \<and> userId r = uid"
  show ?thesis
  proof (cases "\<exists>r \<in> set (summaries w). ?own r")
    case True
    then have "filter ?own (summaries w) \<noteq> []"
      by (simp add: filter_empty_conv)
    with True uid show ?thesis
      by (simp add: DELETE_def deleteMany_def)
  next
    case False
    then have "filter ?own (summaries w) = []"
      and "filter (\<lambda>r. \<not> ?own r) (summaries w) = summaries w"
      by (auto simp: filter_empty_conv filter_id_conv)
    with False uid show ?thesis
      by (simp add: DELETE_def deleteMany_def)
  qed
qed

text \<open>
  User \<open>u1\<close> cannot delete the row of \<open>u2\<close>, and deleting the own row leaves the other.
\<close>

theorem DELETE_only_owned_witness:
  "str ''u1'' \<noteq> []
   \<and> DELETE (Some (str ''u1'')) (str ''b'') w_two = ((404, Delete_error (str ''Not found'')), w_two)
   \<and> DELETE (Some (str ''u1'')) (str ''a'') w_two
       = ((200, Delete_success), w_two\<lparr>summaries := [row_of (str ''b'') (str ''u2'')]\<rparr>)"
proof -
  have u: "str ''u1'' \<noteq> []" by (simp add: str_def)
  have ne: "str ''a'' \<noteq> str ''b''" "str ''u1'' \<noteq> str ''u2''" by (simp_all add: str_def)
  from DELETE_only_owned [OF u, of "str ''b''" w_two] ne
  have 1: "DELETE (Some (str ''u1'')) (str ''b'') w_two
             = ((404, Delete_error (str ''Not found'')), w_two)"
    by (simp add: w_two_def row_of_def)
  from DELETE_only_owned [OF u, of "str ''a''" w_two] ne
  have 2: "DELETE (Some (str ''u1'')) (str ''a'') w_two
       = ((200, Delete_success), w_two\<lparr>summaries := [row_of (str ''b'') (str ''u2'')]\<rparr>)"
    by (simp add: w_two_def row_of_def)
  from u 1 2 show ?thesis by simp
qed

section \<open>The calls each path makes\<close>

lemma generate_logs:
  "\<exists>r. generate env parts w = (r, w\<lparr>model_calls := model_calls w @ [parts]\<rparr>)"
  by (simp add: generate_def Let_def split: gen_result.splits option.splits)

lemma generate_responsive:
  "responsive env \<Longrightarrow>
     \<exists>raw. generate env parts w = (Inr raw, w\<lparr>model_calls := model_calls w @ [parts]\<rparr>)"
proof -
  assume "responsive env"
  then obtain x where "generateContent env (length (model_calls w)) parts = Resolved x"
    unfolding responsive_def by blast
  then show ?thesis
    by (cases x) (simp_all add: generate_def Let_def)
qed

lemma chunk_calls_responsive:
  "responsive env \<Longrightarrow>
     \<exists>partials w'. chunk_calls env chunks i acc w = (Inr partials, w')
        \<and> model_calls w' = model_calls w @ map chunk_prompt (drop i chunks)"
proof (induction env chunks i acc w rule: chunk_calls.induct)
  case (1 env chunks i partialJsons w)
  show ?case
  proof (cases "i < length chunks")
    case False
    then show ?thesis by (simp add: chunk_calls.simps)
  next
    case True
    from generate_responsive [OF "1.prems"] obtain raw where
      g: "geminiSummarizeTextChunkAcademic env (chunks ! i) w
            = (Inr raw, w\<lparr>model_calls := model_calls w @ [chunk_prompt (chunks ! i)]\<rparr>)"
      unfolding geminiSummarizeTextChunkAcademic_def by blast
    let ?w1 = "w\<lparr>model_calls := model_calls w @ [chunk_prompt (chunks ! i)]\<rparr>"
    let ?acc = "partialJsons @ [str ''CHUNK_'' @ decimal (i + 1) @ str '': '' @ raw]"
    from "1.IH" [OF True g [symmetric] refl "1.prems"] obtain partials w' where
      r: "chunk_calls env chunks (i + 1) ?acc ?w1 = (Inr partials, w')"
      and m: "model_calls w' = model_calls ?w1 @ map chunk_prompt (drop (i + 1) chunks)"
      by blast
    from True have "drop i chunks = chunks ! i # drop (i + 1) chunks"
      by (simp add: Cons_nth_drop_Suc)
    with m have "model_calls w' = model_calls w @ map chunk_prompt (drop i chunks)" by simp
    moreover from True g r have "chunk_calls env chunks i partialJsons w = (Inr partials, w')"
      by (subst chunk_calls.simps) simp
    ultimately show ?thesis by blast
  qed
qed

lemma windows_not_empty: "0 < n \<Longrightarrow> xs \<noteq> [] \<Longrightarrow> windows n xs \<noteq> []"
  by (simp add: windows_step)

lemma summarizeFull_responsive:
  assumes "responsive env" and "trim t \<noteq> []"
  shows "\<exists>raw partials w'.
           summarizeFullPdfTextAcademic env t sl w = Some (Inr raw, w')
         \<and> model_calls w' = model_calls w @ map chunk_prompt (windows 9000 (trim t))
                               @ [merge_prompt partials sl]"
proof -
  let ?chunks = "windows 9000 (trim t)"
  have c: "chunkText t 9000 = Some ?chunks" by (simp add: chunkText_windows)
  from assms(2) have ne: "length ?chunks \<noteq> 0" by (simp add: windows_not_empty)
  from chunk_calls_responsive [OF assms(1), of ?chunks 0 "[]" w] obtain ps w1 where
    cc: "chunk_calls env ?chunks 0 [] w = (Inr ps, w1)"
    and m1: "model_calls w1 = model_calls w @ map chunk_prompt ?chunks"
    by auto
  from generate_responsive [OF assms(1)] obtain raw where
    g: "generate env (merge_prompt (join [0xA, 0xA] ps) sl) w1
          = (Inr raw, w1\<lparr>model_calls := model_calls w1 @ [merge_prompt (join [0xA, 0xA] ps) sl]\<rparr>)"
    by blast
  from c ne cc g have "summarizeFullPdfTextAcademic env t sl w
      = Some (Inr raw, w1\<lparr>model_calls := model_calls w1 @ [merge_prompt (join [0xA, 0xA] ps) sl]\<rparr>)"
    by (simp add: summarizeFullPdfTextAcademic_def geminiFinalSummaryAcademic_def)
  with m1 show ?thesis by auto
qed

lemma compress_images_ok:
  "\<forall>img \<in> set imgs. \<exists>b. compressed img = Inr b \<Longrightarrow>
     \<exists>ps. compress_images imgs parts = Inr (parts @ ps) \<and> length ps = length imgs
          \<and> (\<forall>p \<in> set ps. is_inlineData p)"
proof (induction imgs arbitrary: parts)
  case Nil
  then show ?case by simp
next
  case (Cons img rest)
  then obtain b where b: "compressed img = Inr b" by auto
  from Cons obtain ps where
    "compress_images rest (parts @ [InlineData (str ''image/jpeg'') b])
       = Inr ((parts @ [InlineData (str ''image/jpeg'') b]) @ ps)"
    and "length ps = length rest" and "\<forall>p \<in> set ps. is_inlineData p"
    by (metis list.set_intros(2))
  with b have "compress_images (img # rest) parts
        = Inr (parts @ (InlineData (str ''image/jpeg'') b # ps))
      \<and> length (InlineData (str ''image/jpeg'') b # ps) = length (img # rest)
      \<and> (\<forall>p \<in> set (InlineData (str ''image/jpeg'') b # ps). is_inlineData p)"
    by (simp add: compressImageToJpegBase64_def)
  then show ?case by blast
qed

lemma summarizeSingleCall_one_call:
  assumes "\<forall>img \<in> set (take 4 imgs). \<exists>b. compressed img = Inr b"
  shows "\<exists>r parts. summarizeSingleCall env t sl imgs auto h w
                     = (r, w\<lparr>model_calls := model_calls w @ [parts]\<rparr>)"
proof -
  from assms have "\<forall>img \<in> set (js_slice imgs 0 4). \<exists>b. compressed img = Inr b"
    by (simp add: js_slice_def)
  from compress_images_ok [OF this] obtain ps where
    "compress_images (js_slice imgs 0 4) [Text_part (single_prompt_text t sl h)]
       = Inr ([Text_part (single_prompt_text t sl h)] @ ps)"
    by blast
  moreover obtain r where
    "generate env (([Text_part (single_prompt_text t sl h)] @ ps)
        @ map (\<lambda>a. InlineData (fst a) (snd a)) (js_slice auto 0 4)) w
      = (r, w\<lparr>model_calls := model_calls w
           @ [([Text_part (single_prompt_text t sl h)] @ ps)
                 @ map (\<lambda>a. InlineData (fst a) (snd a)) (js_slice auto 0 4)]\<rparr>)"
    using generate_logs by blast
  ultimately have "summarizeSingleCall env t sl imgs auto h w
     = (r, w\<lparr>model_calls := model_calls w
           @ [([Text_part (single_prompt_text t sl h)] @ ps)
                 @ map (\<lambda>a. InlineData (fst a) (snd a)) (js_slice auto 0 4)]\<rparr>)"
    by (simp add: summarizeSingleCall_def)
  then show ?thesis by blast
qed


lemma autoRasterize_skipped:
  "pdfFile = None \<or> trim t \<noteq> [] \<or> imgs \<noteq> [] \<Longrightarrow> autoRasterize pdfFile t imgs w = (Inr [], w)"
  by (auto simp: autoRasterize_def split: option.splits)

lemma autoRasterize_attempted:
  "trim t = [] \<Longrightarrow>
     autoRasterize (Some f) t [] w =
       (case pdfBufferToJpegPagesBase64 f 2 of
          None \<Rightarrow> (Inl (400, Error_body msg_raster_threw), w\<lparr>raster_attempts := raster_attempts w + 1\<rparr>)
        | Some pages \<Rightarrow>
            if pages = []
            then (Inl (400, Error_body msg_raster_empty), w\<lparr>raster_attempts := raster_attempts w + 1\<rparr>)
            else (Inr pages, w\<lparr>raster_attempts := raster_attempts w + 1\<rparr>))"
  by (simp add: autoRasterize_def Let_def split: option.splits)

lemma extractedText_None: "extractedText None = []"
  by (simp add: extractedText_def)

lemma trim_Nil: "trim [] = []"
  by (simp add: trim_def)

lemma POST_after_summarize:
  assumes "has_api_key req" and "caller req = Some uid" and "uid \<noteq> []"
    and "\<not> (pdf req = None \<and> images req = [])"
    and "autoRasterize (pdf req) (extractedText (pdf req)) (images req) (ensureUserRow uid w)
           = (Inr auto, w2)"
    and "summarize env (extractedText (pdf req)) (summaryLength_for (extractedText (pdf req)))
           (images req) auto w2 = Some (r, w3)"
  shows "\<exists>resp w'. POST env req w = Some (resp, w') \<and> fst resp \<noteq> 400
           \<and> model_calls w' = model_calls w3 \<and> raster_attempts w' = raster_attempts w3"
proof -
  note u = POST_unfold [OF assms(1-4), of env w]
  show ?thesis
  proof (cases r)
    case (Inl e)
    with u assms(5,6) show ?thesis by (simp add: server_error_def)
  next
    case (Inr raw)
    with u assms(5,6) show ?thesis
      by (cases "parseSummary (JSON_parse env) raw") (simp_all add: persist_def Let_def)
  qed
qed

lemma POST_chunk_merge:
  assumes "has_api_key req" and "caller req = Some uid" and "uid \<noteq> []"
    and "responsive env" and "images req = []"
    and "trim (extractedText (pdf req)) \<noteq> []" and "12000 < length (extractedText (pdf req))"
  shows "\<exists>resp w' partials. POST env req w = Some (resp, w')
           \<and> model_calls w' = model_calls w
                @ map chunk_prompt (windows 9000 (trim (extractedText (pdf req))))
                @ [merge_prompt partials (summaryLength_for (extractedText (pdf req)))]"
proof -
  let ?t = "extractedText (pdf req)"
  from assms(6) have ne: "?t \<noteq> []" by (auto simp: trim_Nil)
  then have some: "\<not> (pdf req = None \<and> images req = [])" by (auto simp: extractedText_None)
  from assms(6) have ar: "autoRasterize (pdf req) ?t (images req) (ensureUserRow uid w)
      = (Inr [], ensureUserRow uid w)"
    by (simp add: autoRasterize_skipped)
  from summarizeFull_responsive [OF assms(4,6)] obtain raw partials w3 where
    full: "summarizeFullPdfTextAcademic env ?t (summaryLength_for ?t) (ensureUserRow uid w)
             = Some (Inr raw, w3)"
    and m: "model_calls w3 = model_calls (ensureUserRow uid w)
               @ map chunk_prompt (windows 9000 (trim ?t))
               @ [merge_prompt partials (summaryLength_for ?t)]"
    by blast
  from full ne assms(5,7) have
    "summarize env ?t (summaryLength_for ?t) (images req) [] (ensureUserRow uid w)
       = Some (Inr raw, w3)"
    by (simp add: summarize_def)
  from POST_after_summarize [OF assms(1-3) some ar this] m show ?thesis
    by (auto simp: ensureUserRow_frame)
qed

lemma POST_single_call:
  assumes "has_api_key req" and "caller req = Some uid" and "uid \<noteq> []"
    and "\<not> (pdf req = None \<and> images req = [])"
    and "\<forall>img \<in> set (take 4 (images req)). \<exists>b. compressed img = Inr b"
    and "autoRasterize (pdf req) (extractedText (pdf req)) (images req) (ensureUserRow uid w)
           = (Inr auto, w2)"
    and "length (extractedText (pdf req)) \<le> 12000 \<or> images req \<noteq> [] \<or> auto \<noteq> []"
  shows "\<exists>resp w' parts. POST env req w = Some (resp, w') \<and> fst resp \<noteq> 400
           \<and> model_calls w' = model_calls w @ [parts]"
proof -
  let ?t = "extractedText (pdf req)"
  let ?h = "length (images req) > 0 \<or> length auto > 0"
  from summarizeSingleCall_one_call [OF assms(5)] obtain r parts where
    "summarizeSingleCall env ?t (summaryLength_for ?t) (images req) auto ?h w2
       = (r, w2\<lparr>model_calls := model_calls w2 @ [parts]\<rparr>)"
    by blast
  with assms(7) have
    "summarize env ?t (summaryLength_for ?t) (images req) auto w2
       = Some (r, w2\<lparr>model_calls := model_calls w2 @ [parts]\<rparr>)"
    by (auto simp: summarize_def Let_def)
  from POST_after_summarize [OF assms(1-4,6) this] autoRasterize_frame(3) [OF assms(6)]
  show ?thesis by (auto simp: ensureUserRow_frame)
qed

lemma POST_no_content:
  assumes "has_api_key req" and "caller req = Some uid" and "uid \<noteq> []"
    and "images req = []" and "trim (extractedText (pdf req)) = []"
    and "pdf req = None
         \<or> (\<exists>f. pdf req = Some f \<and> pdfBufferToJpegPagesBase64 f 2 \<in> {None, Some []})"
  shows "\<exists>resp w'. POST env req w = Some (resp, w') \<and> fst resp = 400
           \<and> model_calls w' = model_calls w \<and> summaries w' = summaries w"
proof (cases "pdf req")
  case None
  with assms(1-4) show ?thesis
    by (simp add: POST_def Let_def ensureUserRow_frame)
next
  case (Some f)
  with assms(6) have r: "pdfBufferToJpegPagesBase64 f 2 \<in> {None, Some []}" by simp
  from Some have some: "\<not> (pdf req = None \<and> images req = [])" by simp
  from autoRasterize_attempted [OF assms(5), of f "ensureUserRow uid w"] Some assms(4) r
  obtain msg where
    "autoRasterize (pdf req) (extractedText (pdf req)) (images req) (ensureUserRow uid w)
       = (Inl (400, Error_body msg),
          (ensureUserRow uid w)\<lparr>raster_attempts := raster_attempts (ensureUserRow uid w) + 1\<rparr>)"
    by auto
  with POST_unfold [OF assms(1-3) some, of env w] show ?thesis
    by (simp add: ensureUserRow_frame)
qed

section \<open>More example requests, evaluated\<close>

lemma u1_not_empty: "str ''u1'' \<noteq> []"
  by (simp add: str_def)

lemma responsive_env0: "responsive env0"
  by (simp add: responsive_def env0_def)

lemma raster_pdf_scanned: "pdfBufferToJpegPagesBase64 pdf_scanned 2 = None"
  by (simp add: pdfBufferToJpegPagesBase64_def totalPages_def pdf_scanned_def render_loop.simps)

lemma req_scanned_fields:
  "has_api_key req_scanned" "caller req_scanned = Some (str ''u1'')"
  "pdf req_scanned = Some pdf_scanned" "images req_scanned = []"
  "extractedText (Some pdf_scanned) = []"
  by (simp_all add: req_scanned_def extractedText_def pdf_scanned_def)

lemma POST_req_scanned:
  "POST env0 req_scanned w0 = Some ((400, Error_body msg_raster_threw), w_scanned)"
proof -
  have "autoRasterize (Some pdf_scanned) [] [] (ensureUserRow (str ''u1'') w0)
          = (Inl (400, Error_body msg_raster_threw), w_scanned)"
    by (simp add: autoRasterize_attempted trim_Nil raster_pdf_scanned ensureUserRow_def w0_def
        w_scanned_def)
  moreover have "\<not> (pdf req_scanned = None \<and> images req_scanned = [])"
    by (simp add: req_scanned_fields)
  ultimately show ?thesis
    using POST_unfold [OF req_scanned_fields(1,2) u1_not_empty, of env0 w0]
    by (simp add: req_scanned_fields)
qed

lemma req_long_fields:
  "has_api_key req_long" "caller req_long = Some (str ''u1'')" "images req_long = []"
  "extractedText (pdf req_long) = replicate 15000 0x61"
  by (simp_all add: req_long_def extractedText_def pdf_long_def)

lemma js_slice_Nil: "js_slice [] a b = []"
  by (simp add: js_slice_def)

lemma trim_letters: "trim (replicate n 0x61) = replicate n 0x61"
  by (rule trim_replicate) (simp add: is_ws_def)

section \<open>The scanned PDF\<close>

text \<open>
  Claim C2. When a PDF is supplied, its extracted text is blank and no image is
  uploaded, the rasterizer is run once. If it throws or gives no page, the request is
  answered with status 400 and the message that asks for a page image; no model call
  has been made and no row has been created. If it gives pages, the request is not
  answered with 400: exactly one model call is made, with the first four pages attached.
\<close>

theorem scanned_pdf_policy:
  assumes "has_api_key req" and "caller req = Some uid" and "uid \<noteq> []"
    and "pdf req = Some f" and "trim (extractedText (pdf req)) = []" and "images req = []"
  shows "\<exists>resp w'. POST env req w = Some (resp, w')
      \<and> raster_attempts w' = raster_attempts w + 1
      \<and> (case pdfBufferToJpegPagesBase64 f 2 of
           None \<Rightarrow> resp = (400, Error_body msg_raster_threw)
                     \<and> model_calls w' = model_calls w \<and> summaries w' = summaries w
         | Some pages \<Rightarrow>
             if pages = []
             then resp = (400, Error_body msg_raster_empty)
                    \<and> model_calls w' = model_calls w \<and> summaries w' = summaries w
             else fst resp \<noteq> 400
                    \<and> (\<exists>prompt. model_calls w' = model_calls w
                          @ [Text_part prompt # map (\<lambda>a. InlineData (fst a) (snd a)) (take 4 pages)]))"
proof -
  let ?t = "extractedText (pdf req)"
  let ?w1 = "ensureUserRow uid w"
  let ?w2 = "?w1\<lparr>raster_attempts := raster_attempts ?w1 + 1\<rparr>"
  from assms(4) have some: "\<not> (pdf req = None \<and> images req = [])" by simp
  note u = POST_unfold [OF assms(1-3) some, of env w]
  note ar = autoRasterize_attempted [OF assms(5), of f ?w1]
  show ?thesis
  proof (cases "pdfBufferToJpegPagesBase64 f 2")
    case None
    with u ar assms(4,6) show ?thesis by (simp add: ensureUserRow_frame)
  next
    case (Some pages)
    show ?thesis
    proof (cases "pages = []")
      case True
      with Some u ar assms(4,6) show ?thesis by (simp add: ensureUserRow_frame)
    next
      case False
      with Some ar assms(4,6) have a: "autoRasterize (pdf req) ?t (images req) ?w1 = (Inr pages, ?w2)"
        by simp
      let ?parts = "[Text_part (single_prompt_text ?t (summaryLength_for ?t) True)]
                      @ map (\<lambda>a. InlineData (fst a) (snd a)) (js_slice pages 0 4)"
      from generate_logs obtain r where
        "generate env ?parts ?w2 = (r, ?w2\<lparr>model_calls := model_calls ?w2 @ [?parts]\<rparr>)"
        by blast
      with False assms(6) have
        "summarize env ?t (summaryLength_for ?t) (images req) pages ?w2
           = Some (r, ?w2\<lparr>model_calls := model_calls ?w2 @ [?parts]\<rparr>)"
        by (simp add: summarize_def summarizeSingleCall_def js_slice_Nil)
      from POST_after_summarize [OF assms(1-3) some a this] Some False
      show ?thesis by (auto simp: ensureUserRow_frame js_slice_def)
    qed
  qed
qed

text \<open>The scanned PDF whose pages cannot be rendered is refused with status 400.\<close>

theorem scanned_pdf_policy_witness:
  "has_api_key req_scanned \<and> caller req_scanned = Some (str ''u1'') \<and> str ''u1'' \<noteq> []
   \<and> pdf req_scanned = Some pdf_scanned \<and> trim (extractedText (pdf req_scanned)) = []
   \<and> images req_scanned = []
   \<and> pdfBufferToJpegPagesBase64 pdf_scanned 2 = None
   \<and> (\<exists>resp w'. POST env0 req_scanned w0 = Some (resp, w')
        \<and> raster_attempts w' = raster_attempts w0 + 1
        \<and> resp = (400, Error_body msg_raster_threw)
        \<and> model_calls w' = model_calls w0 \<and> summaries w' = summaries w0)"
proof -
  have t: "trim (extractedText (pdf req_scanned)) = []"
    by (simp add: req_scanned_fields trim_Nil)
  from scanned_pdf_policy [OF req_scanned_fields(1,2) u1_not_empty req_scanned_fields(3) t
      req_scanned_fields(4), of env0 w0]
  show ?thesis
    by (simp add: req_scanned_fields u1_not_empty trim_Nil raster_pdf_scanned)
qed


section \<open>How many model calls a request makes\<close>

text \<open>
  Claim C1, as the code has it. Take an authenticated request with the API key set,
  a model that answers every call and user images that compress. With no user image
  and an extracted text whose trimmed form is not empty: if the text has more than
  12000 code units, the chunk-and-merge path is taken, with one call per chunk of the
  trimmed text, \<open>\<lceil>length (trim t) / 9000\<rceil>\<close> of them, followed by exactly one merge call;
  if it has at most 12000, exactly one call is made. With a user image, or with pages
  that the rasterizer produced, exactly one call is made. With a blank text, no user
  image and no rasterized page, the request is answered with status 400 and no call is
  made.
\<close>

theorem model_call_count:
  assumes "has_api_key req" and "caller req = Some uid" and "uid \<noteq> []"
    and "responsive env"
    and "\<forall>img \<in> set (take 4 (images req)). \<exists>b. compressed img = Inr b"
    and "t = extractedText (pdf req)"
  shows
    "(images req = [] \<and> trim t \<noteq> [] \<and> 12000 < length t \<longrightarrow>
        (\<exists>resp w' chunks partials. POST env req w = Some (resp, w')
           \<and> chunkText t 9000 = Some chunks
           \<and> length chunks = (length (trim t) + 8999) div 9000
           \<and> model_calls w' = model_calls w @ map chunk_prompt chunks
                                 @ [merge_prompt partials (summaryLength_for t)]))
   \<and> (images req = [] \<and> trim t \<noteq> [] \<and> length t \<le> 12000 \<longrightarrow>
        (\<exists>resp w' parts. POST env req w = Some (resp, w')
           \<and> model_calls w' = model_calls w @ [parts]))
   \<and> (images req \<noteq> [] \<longrightarrow>
        (\<exists>resp w' parts. POST env req w = Some (resp, w')
           \<and> model_calls w' = model_calls w @ [parts]))
   \<and> (images req = [] \<and> trim t = []
        \<and> (\<exists>f pages. pdf req = Some f \<and> pdfBufferToJpegPagesBase64 f 2 = Some pages
               \<and> pages \<noteq> []) \<longrightarrow>
        (\<exists>resp w' parts. POST env req w = Some (resp, w')
           \<and> model_calls w' = model_calls w @ [parts]))
   \<and> (images req = [] \<and> trim t = []
        \<and> (pdf req = None
            \<or> (\<exists>f. pdf req = Some f \<and> pdfBufferToJpegPagesBase64 f 2 \<in> {None, Some []})) \<longrightarrow>
        (\<exists>resp w'. POST env req w = Some (resp, w') \<and> fst resp = 400
           \<and> model_calls w' = model_calls w))"
proof (intro conjI impI)
  assume a: "images req = [] \<and> trim t \<noteq> [] \<and> 12000 < length t"
  from a assms(6) POST_chunk_merge [OF assms(1-4), of w]
  obtain resp w' partials where
    "POST env req w = Some (resp, w')"
    "model_calls w' = model_calls w @ map chunk_prompt (windows 9000 (trim t))
                        @ [merge_prompt partials (summaryLength_for t)]"
    by auto
  moreover have "chunkText t 9000 = Some (windows 9000 (trim t))"
    by (simp add: chunkText_windows)
  moreover have "length (windows 9000 (trim t)) = (length (trim t) + 8999) div 9000"
    by (simp add: length_windows)
  ultimately show "\<exists>resp w' chunks partials. POST env req w = Some (resp, w')
           \<and> chunkText t 9000 = Some chunks
           \<and> length chunks = (length (trim t) + 8999) div 9000
           \<and> model_calls w' = model_calls w @ map chunk_prompt chunks
                                 @ [merge_prompt partials (summaryLength_for t)]"
    by blast
next
  assume a: "images req = [] \<and> trim t \<noteq> [] \<and> length t \<le> 12000"
  have "pdf req \<noteq> None"
  proof
    assume "pdf req = None"
    with assms(6) have "trim t = []" by (simp add: extractedText_None trim_Nil)
    with a show False by simp
  qed
  then have some: "\<not> (pdf req = None \<and> images req = [])" by simp
  from a assms(6) have ar:
    "autoRasterize (pdf req) (extractedText (pdf req)) (images req) (ensureUserRow uid w)
       = (Inr [], ensureUserRow uid w)"
    by (simp add: autoRasterize_skipped)
  from a assms(6) have "length (extractedText (pdf req)) \<le> 12000 \<or> images req \<noteq> [] \<or> [] \<noteq> []"
    by simp
  from POST_single_call [OF assms(1-3) some assms(5) ar this]
  show "\<exists>resp w' parts. POST env req w = Some (resp, w') \<and> model_calls w' = model_calls w @ [parts]"
    by blast
next
  assume a: "images req \<noteq> []"
  then have some: "\<not> (pdf req = None \<and> images req = [])" by simp
  from a have ar:
    "autoRasterize (pdf req) (extractedText (pdf req)) (images req) (ensureUserRow uid w)
       = (Inr [], ensureUserRow uid w)"
    by (simp add: autoRasterize_skipped)
  from a have "length (extractedText (pdf req)) \<le> 12000 \<or> images req \<noteq> [] \<or> [] \<noteq> []"
    by simp
  from POST_single_call [OF assms(1-3) some assms(5) ar this]
  show "\<exists>resp w' parts. POST env req w = Some (resp, w') \<and> model_calls w' = model_calls w @ [parts]"
    by blast
next
  assume a: "images req = [] \<and> trim t = []
        \<and> (\<exists>f pages. pdf req = Some f \<and> pdfBufferToJpegPagesBase64 f 2 = Some pages
               \<and> pages \<noteq> [])"
  then obtain f pages where f: "pdf req = Some f"
    and p: "pdfBufferToJpegPagesBase64 f 2 = Some pages" "pages \<noteq> []" by blast
  from f have some: "\<not> (pdf req = None \<and> images req = [])" by simp
  from a assms(6) have "trim (extractedText (pdf req)) = []" by simp
  from autoRasterize_attempted [OF this, of f "ensureUserRow uid w"] f p a
  have ar: "autoRasterize (pdf req) (extractedText (pdf req)) (images req) (ensureUserRow uid w)
       = (Inr pages, (ensureUserRow uid w)
            \<lparr>raster_attempts := raster_attempts (ensureUserRow uid w) + 1\<rparr>)"
    by simp
  from p have "length (extractedText (pdf req)) \<le> 12000 \<or> images req \<noteq> [] \<or> pages \<noteq> []"
    by simp
  from POST_single_call [OF assms(1-3) some assms(5) ar this]
  show "\<exists>resp w' parts. POST env req w = Some (resp, w') \<and> model_calls w' = model_calls w @ [parts]"
    by blast
next
  assume a: "images req = [] \<and> trim t = []
        \<and> (pdf req = None
            \<or> (\<exists>f. pdf req = Some f \<and> pdfBufferToJpegPagesBase64 f 2 \<in> {None, Some []}))"
  with assms(6) POST_no_content [OF assms(1-3), of env w]
  show "\<exists>resp w'. POST env req w = Some (resp, w') \<and> fst resp = 400
           \<and> model_calls w' = model_calls w"
    by blast
qed

text \<open>A text of 15000 letters and no image: two chunk calls and one merge call.\<close>

theorem model_call_count_witness:
  "has_api_key req_long \<and> caller req_long = Some (str ''u1'') \<and> str ''u1'' \<noteq> []
   \<and> responsive env0 \<and> images req_long = []
   \<and> trim (extractedText (pdf req_long)) \<noteq> []
   \<and> 12000 < length (extractedText (pdf req_long))
   \<and> (\<exists>resp w' chunks partials. POST env0 req_long w0 = Some (resp, w')
         \<and> chunkText (extractedText (pdf req_long)) 9000 = Some chunks
         \<and> length chunks = 2
         \<and> model_calls w' = model_calls w0 @ map chunk_prompt chunks
              @ [merge_prompt partials (summaryLength_for (extractedText (pdf req_long)))])"
proof -
  have i: "\<forall>img \<in> set (take 4 (images req_long)). \<exists>b. compressed img = Inr b"
    by (simp add: req_long_fields)
  from model_call_count [OF req_long_fields(1,2) u1_not_empty responsive_env0 i refl, of w0]
  show ?thesis
    by (simp add: req_long_fields u1_not_empty responsive_env0 trim_letters)
qed

text \<open>
  The claim as written fails for a scanned PDF: its extracted text has length 0, which is
  at most 12000, no image is uploaded and none can be rendered, and the request is
  refused with no model call at all, not one.
\<close>

theorem one_call_counterexample:
  "length (extractedText (pdf req_scanned)) \<le> 12000
   \<and> images req_scanned = []
   \<and> pdfBufferToJpegPagesBase64 pdf_scanned 2 = None
   \<and> POST env0 req_scanned w0 = Some ((400, Error_body msg_raster_threw), w_scanned)
   \<and> model_calls w_scanned = model_calls w0
   \<and> length (model_calls w_scanned) - length (model_calls w0) \<noteq> 1"
proof -
  have "model_calls w_scanned = model_calls w0"
    and "length (model_calls w_scanned) - length (model_calls w0) \<noteq> 1"
    by (simp_all add: w_scanned_def w0_def)
  then show ?thesis
    by (simp add: req_scanned_fields raster_pdf_scanned POST_req_scanned)
qed

section \<open>The sentence-count guidance\<close>

lemma summaryLength_for_bands:
  "summaryLength_for t =
     (if t = [] then str ''18-24''
      else if length t < 10000 then str ''16-22''
      else if length t < 40000 then str ''24-34''
      else str ''34-45'')"
  by (simp add: summaryLength_for_def)

text \<open>
  Claim C6, as the code has it. The guidance is \<open>16-22\<close> for a non-empty text of fewer
  than 10000 code units, \<open>24-34\<close> from 10000 up to 39999 and \<open>34-45\<close> from 40000 on, so
  \<open>34-45\<close> is chosen exactly for texts of at least 40000 code units; with no text it is
  \<open>18-24\<close>. For a PDF whose text has 15000 code units (not blank) and no image, the
  chunk-and-merge path is taken and the merge prompt carries \<open>24-34\<close>.
\<close>

theorem summaryLength_bands:
  "summaryLength_for t =
     (if t = [] then str ''18-24''
      else if length t < 10000 then str ''16-22''
      else if length t < 40000 then str ''24-34''
      else str ''34-45'')
   \<and> (summaryLength_for t = str ''34-45'' \<longleftrightarrow> 40000 \<le> length t)
   \<and> (has_api_key req \<and> caller req = Some uid \<and> uid \<noteq> [] \<and> responsive env
        \<and> images req = [] \<and> length (extractedText (pdf req)) = 15000
        \<and> trim (extractedText (pdf req)) \<noteq> [] \<longrightarrow>
        summaryLength_for (extractedText (pdf req)) = str ''24-34''
        \<and> (\<exists>resp w' chunks partials. POST env req w = Some (resp, w')
              \<and> chunkText (extractedText (pdf req)) 9000 = Some chunks
              \<and> model_calls w' = model_calls w @ map chunk_prompt chunks
                    @ [merge_prompt partials (str ''24-34'')]))"
proof (intro conjI impI)
  show b: "summaryLength_for t =
     (if t = [] then str ''18-24''
      else if length t < 10000 then str ''16-22''
      else if length t < 40000 then str ''24-34''
      else str ''34-45'')"
    by (rule summaryLength_for_bands)
  show "summaryLength_for t = str ''34-45'' \<longleftrightarrow> 40000 \<le> length t"
    by (auto simp: b str_def)
next
  assume a: "has_api_key req \<and> caller req = Some uid \<and> uid \<noteq> [] \<and> responsive env
        \<and> images req = [] \<and> length (extractedText (pdf req)) = 15000
        \<and> trim (extractedText (pdf req)) \<noteq> []"
  let ?t = "extractedText (pdf req)"
  from a show sl: "summaryLength_for ?t = str ''24-34''"
    by (auto simp: summaryLength_for_bands)
  from a have "12000 < length ?t" by simp
  with a POST_chunk_merge [of req uid env w] obtain resp w' partials where
    "POST env req w = Some (resp, w')"
    "model_calls w' = model_calls w @ map chunk_prompt (windows 9000 (trim ?t))
                        @ [merge_prompt partials (summaryLength_for ?t)]"
    by blast
  moreover have "chunkText ?t 9000 = Some (windows 9000 (trim ?t))"
    by (simp add: chunkText_windows)
  ultimately show "\<exists>resp w' chunks partials. POST env req w = Some (resp, w')
              \<and> chunkText ?t 9000 = Some chunks
              \<and> model_calls w' = model_calls w @ map chunk_prompt chunks
                    @ [merge_prompt partials (str ''24-34'')]"
    using sl by auto
qed

text \<open>The request with 15000 letters takes the chunk-and-merge path under \<open>24-34\<close>.\<close>

theorem summaryLength_bands_witness:
  "has_api_key req_long \<and> caller req_long = Some (str ''u1'') \<and> str ''u1'' \<noteq> []
   \<and> responsive env0 \<and> images req_long = []
   \<and> length (extractedText (pdf req_long)) = 15000
   \<and> trim (extractedText (pdf req_long)) \<noteq> []
   \<and> summaryLength_for (extractedText (pdf req_long)) = str ''24-34''
   \<and> (\<exists>resp w' chunks partials. POST env0 req_long w0 = Some (resp, w')
         \<and> chunkText (extractedText (pdf req_long)) 9000 = Some chunks
         \<and> model_calls w' = model_calls w0 @ map chunk_prompt chunks
              @ [merge_prompt partials (str ''24-34'')])"
  using summaryLength_bands [of "[]" req_long "str ''u1''" env0 w0]
  by (simp add: req_long_fields u1_not_empty responsive_env0 trim_letters)

text \<open>
  The claim as written fails at exactly 40000 code units: that text is not longer than
  40000, and \<open>34-45\<close> is chosen for it.
\<close>

theorem summaryLength_40000_counterexample:
  "length (replicate 40000 (0x61 :: code_unit)) = 40000
   \<and> \<not> 40000 < length (replicate 40000 (0x61 :: code_unit))
   \<and> summaryLength_for (replicate 40000 0x61) = str ''34-45''"
  by (simp add: summaryLength_for_def)

section \<open>The stored image count\<close>

lemma render_loop_length:
  "render_loop f n i out = Some res \<Longrightarrow> length res = length out + (n - i)"
proof (induction f n i out rule: render_loop.induct)
  case (1 f pagesToRender i out)
  show ?case
  proof (cases "i < pagesToRender")
    case False
    with "1.prems" show ?thesis by (simp add: render_loop.simps)
  next
    case True
    with "1.prems" obtain jpg where j: "render_page f i = Some jpg"
      and r: "render_loop f pagesToRender (i + 1) (out @ [(str ''image/jpeg'', jpg)]) = Some res"
      by (subst (asm) render_loop.simps) (auto split: option.splits)
    from "1.IH" [OF True j r] True show ?thesis by simp
  qed
qed

lemma totalPages_positive: "1 \<le> totalPages f"
  by (simp add: totalPages_def split: option.splits)

lemma rasterized_pages:
  assumes "pdfBufferToJpegPagesBase64 f 2 = Some pages"
  shows "1 \<le> length pages \<and> length pages \<le> 2"
proof -
  let ?n = "nat (min (totalPages f) (int 2))"
  from assms have "length pages = ?n"
    by (auto simp: pdfBufferToJpegPagesBase64_def Let_def dest: render_loop_length)
  with totalPages_positive [of f] show ?thesis by (auto simp: min_def)
qed

lemma image_ok_compressed: "compressImageToJpegBase64 image_ok = Inr (str ''image/jpeg'', str ''AA'')"
  by (simp add: compressImageToJpegBase64_def image_ok_def)

lemma POST_req_images5:
  "POST env0 req_images5 w0 = Some ((200, Ok_body view_images5), w_images5)"
proof -
  have src: "toApiSource SummarySource_image = str ''image''"
    "toDbSource (str ''image'') = SummarySource_image"
    by (simp_all add: toApiSource_def toDbSource_def SummarySource_image_def str_def)
  show ?thesis
    by (simp add: POST_def req_images5_def env0_def w0_def Let_def u1_not_empty
        ensureUserRow_def extractedText_def summaryLength_for_def
        autoRasterize_def summarize_def summarizeSingleCall_def js_slice_def
        image_ok_compressed generate_def parseSummary_reply0 persist_def new_row_def
        view_of_def sourceUI_def src view_images5_def w_images5_def row_images5_def)
qed

section \<open>The response parser\<close>

lemma takeWhile_until: "c \<notin> set xs \<Longrightarrow> takeWhile (\<lambda>x. x \<noteq> c) (xs @ c # ys) = xs"
  by (induction xs) auto

lemma indexOf_first: "c \<notin> set pre \<Longrightarrow> indexOf (pre @ c # rest) c = int (length pre)"
  by (simp add: indexOf_def takeWhile_until)

lemma lastIndexOf_last:
  "c \<notin> set post \<Longrightarrow> lastIndexOf (front @ c # post) c = int (length front)"
proof -
  assume "c \<notin> set post"
  then have "takeWhile (\<lambda>x. x \<noteq> c) (rev post @ c # rev front) = rev post"
    by (simp add: takeWhile_until)
  then show ?thesis by (simp add: lastIndexOf_def)
qed

lemma extractJson_braces:
  assumes "0x7B \<notin> set pre" and "0x7D \<notin> set post"
  shows "extractJson (pre @ 0x7B # mid @ 0x7D # post) = Some (0x7B # mid @ [0x7D])"
proof -
  let ?raw = "pre @ 0x7B # mid @ 0x7D # post"
  have s: "indexOf ?raw 0x7B = int (length pre)"
    using assms(1) by (rule indexOf_first)
  have "lastIndexOf ((pre @ 0x7B # mid) @ 0x7D # post) 0x7D = int (length (pre @ 0x7B # mid))"
    using assms(2) by (rule lastIndexOf_last)
  then have e: "lastIndexOf ?raw 0x7D = int (length pre) + 1 + int (length mid)" by simp
  show ?thesis
    by (simp add: extractJson_def s e Let_def js_slice_def nat_add_distrib)
qed

lemma extractJson_Some:
  assumes "extractJson raw = Some sliced"
  shows "\<exists>pre mid post. raw = pre @ sliced @ post \<and> sliced = 0x7B # mid @ [0x7D]
           \<and> 0x7B \<notin> set pre \<and> 0x7D \<notin> set post"
proof -
  from assms have open_in: "0x7B \<in> set raw" and close_in: "0x7D \<in> set raw"
    and lt: "indexOf raw 0x7B < lastIndexOf raw 0x7D"
    by (auto simp: extractJson_def Let_def indexOf_def lastIndexOf_def split: if_splits)
  from open_in obtain pre rest where r1: "raw = pre @ 0x7B # rest" and p: "0x7B \<notin> set pre"
    by (auto dest: split_list_first)
  from close_in obtain front post where r2: "raw = front @ 0x7D # post" and q: "0x7D \<notin> set post"
    by (auto dest: split_list_last)
  from lt have "length pre < length front"
    using indexOf_first [OF p, of rest] lastIndexOf_last [OF q, of front] r1 r2 by simp
  moreover from r1 r2 have "pre @ 0x7B # rest = front @ 0x7D # post" by simp
  ultimately obtain us where "front = pre @ us" and "0x7B # rest = us @ 0x7D # post" and "us \<noteq> []"
    by (auto simp: append_eq_append_conv2)
  then obtain mid where "front = pre @ 0x7B # mid" and "rest = mid @ 0x7D # post"
    by (cases us) auto
  with r1 have raw: "raw = pre @ 0x7B # mid @ 0x7D # post" by simp
  with extractJson_braces [OF p q, of mid] assms have "sliced = 0x7B # mid @ [0x7D]" by simp
  with raw p q show ?thesis by auto
qed

lemma extractJson_not_empty: "extractJson raw = Some sliced \<Longrightarrow> sliced \<noteq> []"
  by (auto dest: extractJson_Some)

lemma normalizeSummary_None_iff:
  "normalizeSummary v = None \<longleftrightarrow>
     \<not> (isRecord v \<and> (\<exists>s. get_prop v (str ''summary'') = Some (JString s)))"
  by (auto simp: normalizeSummary_def Let_def split: option.splits json.splits)


lemma extractJson_None_iff:
  "extractJson raw = None \<longleftrightarrow> \<not> (\<exists>a b c. raw = a @ 0x7B # b @ 0x7D # c)"
proof
  assume n: "extractJson raw = None"
  show "\<not> (\<exists>a b c. raw = a @ 0x7B # b @ 0x7D # c)"
  proof
    assume "\<exists>a b c. raw = a @ 0x7B # b @ 0x7D # c"
    then obtain a b c where raw: "raw = a @ 0x7B # b @ 0x7D # c" by blast
    define k where "k = length a + 1 + length b"
    have open_in: "0x7B \<in> set raw" and close_in: "0x7D \<in> set raw"
      by (simp_all add: raw)
    from open_in obtain pre rest where r1: "raw = pre @ 0x7B # rest" and p: "0x7B \<notin> set pre"
      by (auto dest: split_list_first)
    from close_in obtain front post where r2: "raw = front @ 0x7D # post" and q: "0x7D \<notin> set post"
      by (auto dest: split_list_last)
    have at_a: "raw ! length a = 0x7B"
      by (simp add: raw)
    have at_k: "raw ! k = 0x7D"
      by (simp add: raw k_def nth_append)
    have len1: "length raw = k + 1 + length c"
      by (simp add: raw k_def)
    have len2: "length raw = length front + 1 + length post"
      by (simp add: r2)
    have "length pre \<le> length a"
    proof (rule ccontr)
      assume "\<not> length pre \<le> length a"
      then have l: "length a < length pre" by simp
      have "raw ! length a = pre ! length a"
        by (subst r1) (simp add: nth_append l)
      with at_a have "pre ! length a = 0x7B" by simp
      moreover from l have "pre ! length a \<in> set pre" by (rule nth_mem)
      ultimately show False using p by simp
    qed
    moreover have "k \<le> length front"
    proof (rule ccontr)
      assume "\<not> k \<le> length front"
      then have l: "length front < k" by simp
      define j where "j = k - length front - 1"
      from l have kj: "k = length front + 1 + j" by (simp add: j_def)
      from len1 len2 kj have i: "j < length post" by simp
      have "raw ! k = post ! j"
        by (subst r2) (simp add: kj nth_append)
      with at_k have "post ! j = 0x7D" by simp
      moreover from i have "post ! j \<in> set post" by (rule nth_mem)
      ultimately show False using q by simp
    qed
    ultimately have lt: "int (length pre) < int (length front)"
      by (simp add: k_def)
    have s: "indexOf raw 0x7B = int (length pre)"
      by (subst r1) (rule indexOf_first [OF p])
    have e: "lastIndexOf raw 0x7D = int (length front)"
      by (subst r2) (rule lastIndexOf_last [OF q])
    from n lt show False
      by (simp add: extractJson_def Let_def s e)
  qed
next
  assume no: "\<not> (\<exists>a b c. raw = a @ 0x7B # b @ 0x7D # c)"
  show "extractJson raw = None"
  proof (cases "extractJson raw")
    case None
    then show ?thesis .
  next
    case (Some sliced)
    from extractJson_Some [OF this] obtain pre mid post where
      "raw = pre @ sliced @ post" and "sliced = 0x7B # mid @ [0x7D]" by blast
    then have "raw = pre @ 0x7B # mid @ 0x7D # post" by simp
    with no show ?thesis by blast
  qed
qed

lemma parseSummary_direct: "P raw = Some v \<Longrightarrow> parseSummary P raw = normalizeSummary v"
  by (simp add: parseSummary_def)

lemma parseSummary_retry:
  "P raw = None \<Longrightarrow>
     parseSummary P raw =
       (case extractJson raw of
          None \<Rightarrow> None
        | Some sliced \<Rightarrow> (case P sliced of None \<Rightarrow> None | Some v \<Rightarrow> normalizeSummary v))"
  by (auto simp: parseSummary_def dest: extractJson_not_empty split: option.splits)

lemma json_parse_prose: "json_parse (str ''no json here'') = None"
  by (simp add: json_parse_def str_def json_ws_def json_number_def is_digit_def)

lemma extractJson_prose: "extractJson (str ''no json here'') = None"
  by (simp add: extractJson_def indexOf_def lastIndexOf_def str_def)

lemma parseSummary_prose: "parseSummary json_parse (str ''no json here'') = None"
  by (simp add: parseSummary_retry json_parse_prose extractJson_prose)

lemma req_short_fields:
  "has_api_key req_short" "caller req_short = Some (str ''u1'')" "images req_short = []"
  "pdf req_short = Some pdf_short"
  "extractedText (pdf req_short) = str ''hello''"
  "extractedText (Some pdf_short) = str ''hello''"
  by (simp_all add: req_short_def extractedText_def pdf_short_def)

lemma hello_facts: "str ''hello'' \<noteq> []" "length (str ''hello'') = 5"
  "summaryLength_for (str ''hello'') = str ''16-22''"
  by (simp_all add: str_def summaryLength_for_def)

lemma autoRasterize_short:
  "autoRasterize (pdf req_short) (extractedText (pdf req_short)) (images req_short)
     (ensureUserRow (str ''u1'') w0)
   = (Inr [], w0\<lparr>users := [str ''u1'']\<rparr>)"
  by (simp add: req_short_fields autoRasterize_skipped trim_hello hello_facts
      ensureUserRow_def w0_def)

lemma summarize_short_prose:
  "summarize env_prose (extractedText (pdf req_short))
     (summaryLength_for (extractedText (pdf req_short))) (images req_short) []
     (w0\<lparr>users := [str ''u1'']\<rparr>)
   = Some (Inr (str ''no json here''), w_prose)"
  by (simp add: req_short_fields hello_facts summarize_def summarizeSingleCall_def
      js_slice_Nil generate_def env_prose_def w0_def w_prose_def)


text \<open>
  Claim C4. For every raw response, whatever \<open>JSON.parse\<close> does: when the direct parse
  gives a value, the result is the validation of that value, and no slice is tried;
  when it fails, the text from the first \<open>{\<close> to the last \<open>}\<close> is parsed instead, and the
  result is the validation of what that gives. The result is a failure when there is
  no such slice (no \<open>{\<close> with a \<open>}\<close> after it), when the slice does not parse, or when the
  value parsed is not a record with a string \<open>summary\<close>. On a failure the request is
  answered with status 500, the message and the first 300 code units of the raw
  response, and no row is created. In particular, for an object text wrapped in prose
  that has no brace and, with it, is not JSON, the result is the validation of the
  object.
\<close>

theorem parse_policy:
  "(P raw = Some v \<longrightarrow> parseSummary P raw = normalizeSummary v)
   \<and> (P raw = None \<and> extractJson raw = None \<longrightarrow> parseSummary P raw = None)
   \<and> (P raw = None \<and> extractJson raw = Some sliced \<longrightarrow>
        parseSummary P raw = (case P sliced of None \<Rightarrow> None | Some v' \<Rightarrow> normalizeSummary v'))
   \<and> (extractJson raw = Some sliced \<longrightarrow>
        (\<exists>pre mid post. raw = pre @ sliced @ post \<and> sliced = 0x7B # mid @ [0x7D]
            \<and> 0x7B \<notin> set pre \<and> 0x7D \<notin> set post))
   \<and> (extractJson raw = None \<longleftrightarrow> \<not> (\<exists>a b c. raw = a @ 0x7B # b @ 0x7D # c))
   \<and> (normalizeSummary v = None \<longleftrightarrow>
        \<not> (isRecord v \<and> (\<exists>s. get_prop v (str ''summary'') = Some (JString s))))
   \<and> (has_api_key req \<and> caller req = Some uid \<and> uid \<noteq> []
        \<and> \<not> (pdf req = None \<and> images req = [])
        \<and> autoRasterize (pdf req) (extractedText (pdf req)) (images req) (ensureUserRow uid w)
             = (Inr auto, w2)
        \<and> summarize env (extractedText (pdf req)) (summaryLength_for (extractedText (pdf req)))
             (images req) auto w2 = Some (Inr answer, w3)
        \<and> parseSummary (JSON_parse env) answer = None \<longrightarrow>
        POST env req w = Some ((500, Error_raw_body msg_not_json (take 300 answer)), w3)
        \<and> summaries w3 = summaries w)
   \<and> (0x7B \<notin> set pre \<and> 0x7D \<notin> set post
        \<and> P (pre @ 0x7B # mid @ 0x7D # post) = None
        \<and> P (0x7B # mid @ [0x7D]) = Some obj \<longrightarrow>
        parseSummary P (pre @ 0x7B # mid @ 0x7D # post) = normalizeSummary obj)"
proof (intro conjI impI)
  assume "P raw = Some v"
  then show "parseSummary P raw = normalizeSummary v" by (rule parseSummary_direct)
next
  assume "P raw = None \<and> extractJson raw = None"
  then show "parseSummary P raw = None" by (simp add: parseSummary_retry)
next
  assume "P raw = None \<and> extractJson raw = Some sliced"
  then show "parseSummary P raw
               = (case P sliced of None \<Rightarrow> None | Some v' \<Rightarrow> normalizeSummary v')"
    by (simp add: parseSummary_retry)
next
  assume "extractJson raw = Some sliced"
  then show "\<exists>pre mid post. raw = pre @ sliced @ post \<and> sliced = 0x7B # mid @ [0x7D]
            \<and> 0x7B \<notin> set pre \<and> 0x7D \<notin> set post"
    by (rule extractJson_Some)
next
  show "extractJson raw = None \<longleftrightarrow> \<not> (\<exists>a b c. raw = a @ 0x7B # b @ 0x7D # c)"
    by (rule extractJson_None_iff)
  show "normalizeSummary v = None \<longleftrightarrow>
        \<not> (isRecord v \<and> (\<exists>s. get_prop v (str ''summary'') = Some (JString s)))"
    by (rule normalizeSummary_None_iff)
next
  assume a: "has_api_key req \<and> caller req = Some uid \<and> uid \<noteq> []
        \<and> \<not> (pdf req = None \<and> images req = [])
        \<and> autoRasterize (pdf req) (extractedText (pdf req)) (images req) (ensureUserRow uid w)
             = (Inr auto, w2)
        \<and> summarize env (extractedText (pdf req)) (summaryLength_for (extractedText (pdf req)))
             (images req) auto w2 = Some (Inr answer, w3)
        \<and> parseSummary (JSON_parse env) answer = None"
  then have key: "has_api_key req" and uid: "caller req = Some uid" "uid \<noteq> []"
    and some: "\<not> (pdf req = None \<and> images req = [])"
    and ar: "autoRasterize (pdf req) (extractedText (pdf req)) (images req) (ensureUserRow uid w)
             = (Inr auto, w2)"
    and sm: "summarize env (extractedText (pdf req)) (summaryLength_for (extractedText (pdf req)))
             (images req) auto w2 = Some (Inr answer, w3)"
    and ps: "parseSummary (JSON_parse env) answer = None"
    by blast+
  from POST_unfold [OF key uid some, of env w] ar sm ps
  show "POST env req w = Some ((500, Error_raw_body msg_not_json (take 300 answer)), w3)"
    by (simp add: js_slice_def)
  from autoRasterize_frame(1) [OF ar] summarize_frame [OF sm]
  show "summaries w3 = summaries w" by (simp add: ensureUserRow_frame)
next
  assume "0x7B \<notin> set pre \<and> 0x7D \<notin> set post
        \<and> P (pre @ 0x7B # mid @ 0x7D # post) = None
        \<and> P (0x7B # mid @ [0x7D]) = Some obj"
  then show "parseSummary P (pre @ 0x7B # mid @ 0x7D # post) = normalizeSummary obj"
    by (simp add: parseSummary_retry extractJson_braces)
qed


text \<open>
  The three routes through the parser on concrete answers, with the reference parser:
  a bare object, prose without braces, and the specification's scenario; and the request
  that the prose answer fails.
\<close>

theorem parse_policy_witness:
  "json_parse object0 = Some value0
   \<and> parseSummary json_parse object0 = normalizeSummary value0
   \<and> json_parse (str ''no json here'') = None
   \<and> extractJson (str ''no json here'') = None
   \<and> parseSummary json_parse (str ''no json here'') = None
   \<and> json_parse reply0 = None
   \<and> extractJson reply0 = Some object0
   \<and> reply0 = str ''Here is the result: '' @ 0x7B # inner0 @ 0x7D # str '' Thanks!''
   \<and> parseSummary json_parse reply0 = normalizeSummary value0
   \<and> normalizeSummary value0
         = Some \<lparr>title = None, summary = str ''...'', keywords = [str ''a'', str ''b'']\<rparr>
   \<and> POST env_prose req_short w0
         = Some ((500, Error_raw_body msg_not_json (take 300 (str ''no json here''))), w_prose)
   \<and> summaries w_prose = summaries w0"
proof -
  have v: "json_parse object0 = Some value0"
    by (simp add: json_parse_object0 value0_def)
  have n: "normalizeSummary value0
         = Some \<lparr>title = None, summary = str ''...'', keywords = [str ''a'', str ''b'']\<rparr>"
    by (simp add: value0_def normalizeSummary_object0)
  have o: "object0 = 0x7B # inner0 @ [0x7D]"
    by (simp add: inner0_def object0_def str_def)
  have r: "reply0 = str ''Here is the result: '' @ 0x7B # inner0 @ 0x7D # str '' Thanks!''"
    by (simp add: reply0_def o)
  have b: "0x7B \<notin> set (str ''Here is the result: '')" "0x7D \<notin> set (str '' Thanks!'')"
    by (simp_all add: str_def)
  have d: "parseSummary json_parse object0 = normalizeSummary value0"
    using parse_policy [where P = json_parse and raw = object0 and v = value0] v by blast
  have e: "parseSummary json_parse (str ''no json here'') = None"
    using parse_policy [where P = json_parse and raw = "str ''no json here''"]
      json_parse_prose extractJson_prose
    by blast
  have s: "parseSummary json_parse reply0 = normalizeSummary value0"
    using parse_policy [where P = json_parse and pre = "str ''Here is the result: ''"
        and post = "str '' Thanks!''" and mid = inner0 and obj = value0] b json_parse_reply0 v
    by (simp add: r [symmetric] o [symmetric])
  have some: "\<not> (pdf req_short = None \<and> images req_short = [])"
    by (simp add: req_short_fields)
  have env: "JSON_parse env_prose = json_parse" by (simp add: env_prose_def)
  have f: "POST env_prose req_short w0
         = Some ((500, Error_raw_body msg_not_json (take 300 (str ''no json here''))), w_prose)
       \<and> summaries w_prose = summaries w0"
    using parse_policy [where req = req_short and uid = "str ''u1''" and w = w0 and auto = "[]"
        and ?w2.0 = "w0\<lparr>users := [str ''u1'']\<rparr>" and env = env_prose
        and answer = "str ''no json here''" and ?w3.0 = w_prose]
      req_short_fields(1,2) u1_not_empty some autoRasterize_short summarize_short_prose
      parseSummary_prose
    by (simp add: env)
  from v d json_parse_prose extractJson_prose e json_parse_reply0 extractJson_reply0 r s n f
  show ?thesis by simp
qed

section \<open>The answer a stored row comes from\<close>

lemma generate_last:
  assumes "generate env parts w = (Inr raw, w')"
  shows "model_calls w' \<noteq> []
       \<and> (\<exists>x. generateContent env (length (model_calls w') - 1) (last (model_calls w')) = Resolved x
              \<and> raw = (case x of None \<Rightarrow> [] | Some t \<Rightarrow> t))"
proof -
  from generate_frame(4) [OF assms] have m: "model_calls w' = model_calls w @ [parts]" .
  from assms obtain x where "generateContent env (length (model_calls w)) parts = Resolved x"
    and "raw = (case x of None \<Rightarrow> [] | Some t \<Rightarrow> t)"
    by (auto simp: generate_def Let_def split: gen_result.splits option.splits)
  with m show ?thesis by simp
qed

lemma summarizeFull_last:
  assumes "summarizeFullPdfTextAcademic env t sl w = Some (Inr raw, w')"
  shows "model_calls w' \<noteq> []
       \<and> (\<exists>x. generateContent env (length (model_calls w') - 1) (last (model_calls w')) = Resolved x
              \<and> raw = (case x of None \<Rightarrow> [] | Some t \<Rightarrow> t))"
proof -
  from assms obtain chunks where c: "chunkText t 9000 = Some chunks"
    by (auto simp: summarizeFullPdfTextAcademic_def split: option.splits)
  from assms c have ne: "length chunks \<noteq> 0"
    by (auto simp: summarizeFullPdfTextAcademic_def)
  obtain y w1 where cc: "chunk_calls env chunks 0 [] w = (y, w1)"
    by (cases "chunk_calls env chunks 0 [] w")
  from assms c ne cc obtain ps where "y = Inr ps"
    by (cases y) (auto simp: summarizeFullPdfTextAcademic_def)
  with assms c ne cc have "generate env (merge_prompt (join [0xA, 0xA] ps) sl) w1 = (Inr raw, w')"
    by (simp add: summarizeFullPdfTextAcademic_def geminiFinalSummaryAcademic_def)
  then show ?thesis by (rule generate_last)
qed

lemma summarizeSingleCall_last:
  assumes "summarizeSingleCall env t sl imgs auto h w = (Inr raw, w')"
  shows "model_calls w' \<noteq> []
       \<and> (\<exists>x. generateContent env (length (model_calls w') - 1) (last (model_calls w')) = Resolved x
              \<and> raw = (case x of None \<Rightarrow> [] | Some t \<Rightarrow> t))"
proof -
  from assms obtain parts where
    "generate env (parts @ map (\<lambda>a. InlineData (fst a) (snd a)) (js_slice auto 0 4)) w
       = (Inr raw, w')"
    by (auto simp: summarizeSingleCall_def split: sum.splits)
  then show ?thesis by (rule generate_last)
qed

lemma summarize_last:
  assumes "summarize env t sl imgs auto w = Some (Inr raw, w')"
  shows "model_calls w' \<noteq> []
       \<and> (\<exists>x. generateContent env (length (model_calls w') - 1) (last (model_calls w')) = Resolved x
              \<and> raw = (case x of None \<Rightarrow> [] | Some t \<Rightarrow> t))"
proof (cases "t \<noteq> [] \<and> length t > 12000 \<and> \<not> (length imgs > 0 \<or> length auto > 0)")
  case True
  with assms have "summarizeFullPdfTextAcademic env t sl w = Some (Inr raw, w')"
    by (simp add: summarize_def)
  then show ?thesis by (rule summarizeFull_last)
next
  case False
  with assms have "summarizeSingleCall env t sl imgs auto (length imgs > 0 \<or> length auto > 0) w
                     = (Inr raw, w')"
    by (auto simp: summarize_def Let_def)
  then show ?thesis by (rule summarizeSingleCall_last)
qed

lemma parseSummary_value:
  assumes "parseSummary P raw = Some parsed"
  shows "\<exists>val. (P raw = Some val
                \<or> (P raw = None \<and> (\<exists>sliced. extractJson raw = Some sliced \<and> P sliced = Some val)))
              \<and> normalizeSummary val = Some parsed"
  using assms by (auto simp: parseSummary_def split: option.splits if_splits)

lemma normalizeSummary_fields:
  assumes "normalizeSummary val = Some parsed"
  shows "title parsed = (case get_prop val (str ''title'') of Some (JString t) \<Rightarrow> Some t | _ \<Rightarrow> None)"
    and "keywords parsed =
           (if strings_only (case get_prop val (str ''keywords'') of Some (JArray ks) \<Rightarrow> ks | _ \<Rightarrow> []) = []
            then default_keywords
            else strings_only (case get_prop val (str ''keywords'') of Some (JArray ks) \<Rightarrow> ks | _ \<Rightarrow> []))"
    and "get_prop val (str ''summary'') = Some (JString (summary parsed))"
  using assms
  by (auto simp: normalizeSummary_def Let_def split: if_splits option.splits json.splits)

lemma strings_only_strings: "strings_only (map JString ks) = ks"
  by (induction ks) auto

text \<open>
  A successful request: the row it adds, the answer of its last model call and the value
  that answer parses to, directly or through the slice between the braces.
\<close>

lemma POST_200_answer:
  assumes "POST env req w = Some ((200, Ok_body view), w')"
  obtains uid auto parsed row x answer val where
    "caller req = Some uid"
    and "row = new_row env uid (pdf req) (extractedText (pdf req)) (images req) auto parsed"
    and "view = view_of row"
    and "summaries w' = summaries w @ [row]"
    and "model_calls w' \<noteq> []"
    and "generateContent env (length (model_calls w') - 1) (last (model_calls w')) = Resolved x"
    and "answer = (case x of None \<Rightarrow> [] | Some t \<Rightarrow> t)"
    and "JSON_parse env answer = Some val
         \<or> (JSON_parse env answer = None
             \<and> (\<exists>sliced. extractJson answer = Some sliced \<and> JSON_parse env sliced = Some val))"
    and "normalizeSummary val = Some parsed"
proof -
  from POST_200 [OF assms] obtain uid auto raw parsed w2 w3 where
    uid: "caller req = Some uid"
    and sm: "summarize env (extractedText (pdf req)) (summaryLength_for (extractedText (pdf req)))
              (images req) auto w2 = Some (Inr raw, w3)"
    and ps: "parseSummary (JSON_parse env) raw = Some parsed"
    and pe: "persist env uid (pdf req) (extractedText (pdf req)) (images req) auto parsed w3
             = ((200, Ok_body view), w')"
    and ar: "autoRasterize (pdf req) (extractedText (pdf req)) (images req) (ensureUserRow uid w)
             = (Inr auto, w2)"
    by blast
  define row where "row = new_row env uid (pdf req) (extractedText (pdf req)) (images req) auto parsed"
  from autoRasterize_frame(1) [OF ar] summarize_frame [OF sm]
  have f: "summaries w3 = summaries w" by (simp add: ensureUserRow_frame)
  from persist_row [OF pe] have v: "view = view_of row"
    and w': "w' = w3\<lparr>summaries := summaries w3 @ [row]\<rparr>"
    by (simp_all add: row_def)
  from w' f have ss: "summaries w' = summaries w @ [row]" and mc: "model_calls w' = model_calls w3"
    by simp_all
  from summarize_last [OF sm] mc obtain x where
    ne: "model_calls w' \<noteq> []"
    and g: "generateContent env (length (model_calls w') - 1) (last (model_calls w')) = Resolved x"
    and r: "raw = (case x of None \<Rightarrow> [] | Some t \<Rightarrow> t)"
    by auto
  from parseSummary_value [OF ps] obtain val where
    p: "JSON_parse env raw = Some val
         \<or> (JSON_parse env raw = None
             \<and> (\<exists>sliced. extractJson raw = Some sliced \<and> JSON_parse env sliced = Some val))"
    and n: "normalizeSummary val = Some parsed"
    by blast
  from uid row_def v ss ne g r p n show thesis by (rule that)
qed


section \<open>The request answered with a long title and no keyword\<close>

lemma json_parse_reply_titled: "json_parse reply_titled = Some value_titled"
  by (simp add: reply_titled_def long_title_def value_titled_def json_parse_def str_def
      json_ws_def unescape_def)

lemma normalizeSummary_value_titled:
  "normalizeSummary value_titled
     = Some \<lparr>title = Some long_title, summary = str ''...'', keywords = default_keywords\<rparr>"
  by (simp add: value_titled_def normalizeSummary_def str_def)

lemma parseSummary_reply_titled:
  "parseSummary json_parse reply_titled
     = Some \<lparr>title = Some long_title, summary = str ''...'', keywords = default_keywords\<rparr>"
  by (simp add: parseSummary_direct json_parse_reply_titled normalizeSummary_value_titled)

lemma long_title_length: "length long_title = 150"
  by (simp add: long_title_def str_def)

lemma POST_req_titled:
  "POST env_titled req_short w0 = Some ((200, Ok_body view_titled), w_titled)"
proof -
  have src: "toApiSource SummarySource_pdf = str ''pdf''" "toDbSource (str ''pdf'') = SummarySource_pdf"
    by (simp_all add: toApiSource_def toDbSource_def SummarySource_pdf_def str_def)
  have t: "long_title \<noteq> []"
    using long_title_length by auto
  have some: "\<not> (pdf req_short = None \<and> images req_short = [])"
    by (simp add: req_short_fields)
  have sm: "summarize env_titled (extractedText (pdf req_short))
     (summaryLength_for (extractedText (pdf req_short))) (images req_short) []
     (w0\<lparr>users := [str ''u1'']\<rparr>)
   = Some (Inr reply_titled, w_prose)"
    by (simp add: req_short_fields hello_facts summarize_def summarizeSingleCall_def
        js_slice_Nil generate_def env_titled_def w0_def w_prose_def)
  have env: "JSON_parse env_titled = json_parse" "fresh_id env_titled = str ''s1''"
    "now env_titled = 0"
    by (simp_all add: env_titled_def)
  have k: "strings_only (map JString default_keywords) = default_keywords"
    by (rule strings_only_strings)
  from POST_unfold [OF req_short_fields(1,2) u1_not_empty some, of env_titled w0]
  have "POST env_titled req_short w0
      = Some (persist env_titled (str ''u1'') (pdf req_short) (extractedText (pdf req_short))
                (images req_short) []
                \<lparr>title = Some long_title, summary = str ''...'', keywords = default_keywords\<rparr>
                w_prose)"
    by (simp add: autoRasterize_short sm env parseSummary_reply_titled)
  also have "\<dots> = Some ((200, Ok_body view_titled), w_titled)"
    by (simp add: env persist_def new_row_def view_of_def sourceUI_def src js_slice_def t k
        req_short_fields pdf_short_def extractedText_def view_titled_def w_titled_def
        row_titled_def w_prose_def)
  finally show ?thesis .
qed

section \<open>The stored keywords\<close>

text \<open>
  Claim C3. Whatever value a model response parses to, the validator's keywords are the
  string entries of the value's \<open>keywords\<close> array, in order, with every other entry
  dropped; when none is left (an empty array, no array, no such field) they are the fixed
  list \<open>summary\<close>, \<open>document\<close>, \<open>analysis\<close>; so they are never empty. A successful request
  adds one row, and the keywords of that row are computed in this way from the value
  that the answer of the request's last model call parses to (directly, or through the
  slice between its first \<open>{\<close> and last \<open>}\<close>); the response shows the same list of strings.
\<close>

theorem persisted_keywords:
  "(normalizeSummary v = Some r \<longrightarrow>
      keywords r \<noteq> []
      \<and> (\<exists>xs. xs = (case get_prop v (str ''keywords'') of Some (JArray ks) \<Rightarrow> ks | _ \<Rightarrow> [])
            \<and> map JString (strings_only xs) = filter (\<lambda>k. \<exists>s. k = JString s) xs
            \<and> keywords r = (if strings_only xs = [] then default_keywords else strings_only xs)))
   \<and> default_keywords = [str ''summary'', str ''document'', str ''analysis'']
   \<and> (POST env req w = Some ((200, Ok_body view), w') \<longrightarrow>
        (\<exists>row x answer val xs stored.
            summaries w' = summaries w @ [row]
          \<and> model_calls w' \<noteq> []
          \<and> generateContent env (length (model_calls w') - 1) (last (model_calls w')) = Resolved x
          \<and> answer = (case x of None \<Rightarrow> [] | Some t \<Rightarrow> t)
          \<and> (JSON_parse env answer = Some val
               \<or> (JSON_parse env answer = None
                   \<and> (\<exists>sliced. extractJson answer = Some sliced
                          \<and> JSON_parse env sliced = Some val)))
          \<and> xs = (case get_prop val (str ''keywords'') of Some (JArray ks) \<Rightarrow> ks | _ \<Rightarrow> [])
          \<and> map JString (strings_only xs) = filter (\<lambda>k. \<exists>s. k = JString s) xs
          \<and> stored = (if strings_only xs = [] then default_keywords else strings_only xs)
          \<and> stored \<noteq> []
          \<and> row_keywords row = JArray (map JString stored)
          \<and> v_keywords view = stored))"
proof (intro conjI impI)
  assume n: "normalizeSummary v = Some r"
  define xs where "xs = (case get_prop v (str ''keywords'') of Some (JArray ks) \<Rightarrow> ks | _ \<Rightarrow> [])"
  from normalizeSummary_fields(2) [OF n]
  have k: "keywords r = (if strings_only xs = [] then default_keywords else strings_only xs)"
    by (simp add: xs_def)
  then show "keywords r \<noteq> []" by (simp add: default_keywords_def)
  from k show "\<exists>xs. xs = (case get_prop v (str ''keywords'') of Some (JArray ks) \<Rightarrow> ks | _ \<Rightarrow> [])
            \<and> map JString (strings_only xs) = filter (\<lambda>k. \<exists>s. k = JString s) xs
            \<and> keywords r = (if strings_only xs = [] then default_keywords else strings_only xs)"
    by (simp add: xs_def strings_only_filter)
next
  show "default_keywords = [str ''summary'', str ''document'', str ''analysis'']"
    by (simp add: default_keywords_def)
next
  assume "POST env req w = Some ((200, Ok_body view), w')"
  then obtain uid auto parsed row x answer val where
    row: "row = new_row env uid (pdf req) (extractedText (pdf req)) (images req) auto parsed"
    and view: "view = view_of row"
    and ss: "summaries w' = summaries w @ [row]"
    and ne: "model_calls w' \<noteq> []"
    and g: "generateContent env (length (model_calls w') - 1) (last (model_calls w')) = Resolved x"
    and a: "answer = (case x of None \<Rightarrow> [] | Some t \<Rightarrow> t)"
    and p: "JSON_parse env answer = Some val
         \<or> (JSON_parse env answer = None
             \<and> (\<exists>sliced. extractJson answer = Some sliced \<and> JSON_parse env sliced = Some val))"
    and n: "normalizeSummary val = Some parsed"
    by (rule POST_200_answer)
  define xs where "xs = (case get_prop val (str ''keywords'') of Some (JArray ks) \<Rightarrow> ks | _ \<Rightarrow> [])"
  define stored where "stored = (if strings_only xs = [] then default_keywords else strings_only xs)"
  from normalizeSummary_fields(2) [OF n] have k: "keywords parsed = stored"
    by (simp add: xs_def stored_def)
  have s: "stored \<noteq> []" by (simp add: stored_def default_keywords_def)
  have rk: "row_keywords row = JArray (map JString stored)"
    by (simp add: row new_row_def Let_def k)
  have vk: "v_keywords view = stored"
    by (simp add: view view_of_def rk strings_only_strings)
  have f: "map JString (strings_only xs) = filter (\<lambda>k. \<exists>s. k = JString s) xs"
    by (rule strings_only_filter)
  from ss ne g a p xs_def f stored_def s rk vk
  show "\<exists>row x answer val xs stored.
            summaries w' = summaries w @ [row]
          \<and> model_calls w' \<noteq> []
          \<and> generateContent env (length (model_calls w') - 1) (last (model_calls w')) = Resolved x
          \<and> answer = (case x of None \<Rightarrow> [] | Some t \<Rightarrow> t)
          \<and> (JSON_parse env answer = Some val
               \<or> (JSON_parse env answer = None
                   \<and> (\<exists>sliced. extractJson answer = Some sliced
                          \<and> JSON_parse env sliced = Some val)))
          \<and> xs = (case get_prop val (str ''keywords'') of Some (JArray ks) \<Rightarrow> ks | _ \<Rightarrow> [])
          \<and> map JString (strings_only xs) = filter (\<lambda>k. \<exists>s. k = JString s) xs
          \<and> stored = (if strings_only xs = [] then default_keywords else strings_only xs)
          \<and> stored \<noteq> []
          \<and> row_keywords row = JArray (map JString stored)
          \<and> v_keywords view = stored"
    by blast
qed


lemma env_titled_fields:
  "JSON_parse env_titled = json_parse"
  "generateContent env_titled k parts = Resolved (Some reply_titled)"
  by (simp_all add: env_titled_def)

lemma env0_fields:
  "JSON_parse env0 = json_parse"
  "generateContent env0 k parts = Resolved (Some reply0)"
  by (simp_all add: env0_def)

text \<open>
  The model answers \<open>keywords: []\<close>: by the theorem the row holds the default list. With
  the answer of the scenario it holds \<open>a\<close> and \<open>b\<close>.
\<close>

theorem persisted_keywords_witness:
  "POST env_titled req_short w0 = Some ((200, Ok_body view_titled), w_titled)
   \<and> generateContent env_titled (length (model_calls w_titled) - 1) (last (model_calls w_titled))
        = Resolved (Some reply_titled)
   \<and> JSON_parse env_titled reply_titled = Some value_titled
   \<and> get_prop value_titled (str ''keywords'') = Some (JArray [])
   \<and> (\<exists>row. summaries w_titled = summaries w0 @ [row]
          \<and> row_keywords row = JArray (map JString default_keywords))
   \<and> v_keywords view_titled = default_keywords
   \<and> POST env0 req_short w0 = Some ((200, Ok_body view_short), w_short)
   \<and> JSON_parse env0 reply0 = None
   \<and> extractJson reply0 = Some object0
   \<and> JSON_parse env0 object0 = Some value0
   \<and> (\<exists>row. summaries w_short = summaries w0 @ [row]
          \<and> row_keywords row = JArray [JString (str ''a''), JString (str ''b'')])
   \<and> v_keywords view_short = [str ''a'', str ''b'']"
proof -
  have kw: "get_prop value_titled (str ''keywords'') = Some (JArray [])"
    by (simp add: value_titled_def str_def)
  have pt: "JSON_parse env_titled reply_titled = Some value_titled"
    by (simp add: env_titled_fields json_parse_reply_titled)
  from persisted_keywords [of _ _ env_titled req_short w0 view_titled w_titled,
      THEN conjunct2, THEN conjunct2, THEN mp, OF POST_req_titled]
  obtain row1 x1 answer1 val1 xs1 stored1 where
    ss1: "summaries w_titled = summaries w0 @ [row1]"
    and ne1: "model_calls w_titled \<noteq> []"
    and g1: "generateContent env_titled (length (model_calls w_titled) - 1)
              (last (model_calls w_titled)) = Resolved x1"
    and a1: "answer1 = (case x1 of None \<Rightarrow> [] | Some t \<Rightarrow> t)"
    and p1: "JSON_parse env_titled answer1 = Some val1
               \<or> (JSON_parse env_titled answer1 = None
                   \<and> (\<exists>sliced. extractJson answer1 = Some sliced
                          \<and> JSON_parse env_titled sliced = Some val1))"
    and xs1: "xs1 = (case get_prop val1 (str ''keywords'') of Some (JArray ks) \<Rightarrow> ks | _ \<Rightarrow> [])"
    and f1: "map JString (strings_only xs1) = filter (\<lambda>k. \<exists>s. k = JString s) xs1"
    and st1: "stored1 = (if strings_only xs1 = [] then default_keywords else strings_only xs1)"
    and sn1: "stored1 \<noteq> []"
    and rk1: "row_keywords row1 = JArray (map JString stored1)"
    and vk1: "v_keywords view_titled = stored1"
    by (elim exE conjE) (rule that, assumption+)
  from g1 have "x1 = Some reply_titled" by (simp add: env_titled_fields)
  with a1 have "answer1 = reply_titled" by simp
  with p1 pt have "val1 = value_titled" by simp
  with xs1 kw have "xs1 = []" by simp
  with st1 have d: "stored1 = default_keywords" by simp
  from ss1 rk1 d have 1: "\<exists>row. summaries w_titled = summaries w0 @ [row]
          \<and> row_keywords row = JArray (map JString default_keywords)"
    by blast
  from vk1 d have 2: "v_keywords view_titled = default_keywords"
    by simp
  have kw0: "get_prop value0 (str ''keywords'')
               = Some (JArray [JString (str ''a''), JString (str ''b'')])"
    by (simp add: value0_def str_def)
  have p0: "JSON_parse env0 reply0 = None" "JSON_parse env0 object0 = Some value0"
    by (simp_all add: env0_fields json_parse_reply0 json_parse_object0 value0_def)
  from persisted_keywords [of _ _ env0 req_short w0 view_short w_short,
      THEN conjunct2, THEN conjunct2, THEN mp, OF POST_req_short]
  obtain row2 x2 answer2 val2 xs2 stored2 where
    ss2: "summaries w_short = summaries w0 @ [row2]"
    and ne2: "model_calls w_short \<noteq> []"
    and g2: "generateContent env0 (length (model_calls w_short) - 1)
              (last (model_calls w_short)) = Resolved x2"
    and a2: "answer2 = (case x2 of None \<Rightarrow> [] | Some t \<Rightarrow> t)"
    and p2: "JSON_parse env0 answer2 = Some val2
               \<or> (JSON_parse env0 answer2 = None
                   \<and> (\<exists>sliced. extractJson answer2 = Some sliced
                          \<and> JSON_parse env0 sliced = Some val2))"
    and xs2: "xs2 = (case get_prop val2 (str ''keywords'') of Some (JArray ks) \<Rightarrow> ks | _ \<Rightarrow> [])"
    and f2: "map JString (strings_only xs2) = filter (\<lambda>k. \<exists>s. k = JString s) xs2"
    and st2: "stored2 = (if strings_only xs2 = [] then default_keywords else strings_only xs2)"
    and sn2: "stored2 \<noteq> []"
    and rk2: "row_keywords row2 = JArray (map JString stored2)"
    and vk2: "v_keywords view_short = stored2"
    by (elim exE conjE) (rule that, assumption+)
  from g2 have "x2 = Some reply0" by (simp add: env0_fields)
  with a2 have "answer2 = reply0" by simp
  with p2 p0 extractJson_reply0 have "val2 = value0" by auto
  with xs2 kw0 have "xs2 = [JString (str ''a''), JString (str ''b'')]" by simp
  with st2 have d': "stored2 = [str ''a'', str ''b'']" by simp
  from ss2 rk2 d' have 3: "\<exists>row. summaries w_short = summaries w0 @ [row]
          \<and> row_keywords row = JArray [JString (str ''a''), JString (str ''b'')]"
    by auto
  from vk2 d' have 4: "v_keywords view_short = [str ''a'', str ''b'']"
    by simp
  have gt: "generateContent env_titled (length (model_calls w_titled) - 1)
              (last (model_calls w_titled)) = Resolved (Some reply_titled)"
    by (simp add: env_titled_fields)
  show ?thesis
    by (intro conjI) (fact POST_req_titled gt pt kw 1 2 POST_req_short p0 extractJson_reply0 3 4)+
qed

section \<open>The stored title\<close>

text \<open>
  Claim C9. A successful request adds one row. Its title is computed from the value that
  the answer of the request's last model call parses to (directly, or through the slice
  between its first \<open>{\<close> and last \<open>}\<close>): when that value has no string \<open>title\<close>, or an empty
  one, the default title is stored; otherwise the first 140 code units of the model's
  title are stored. The stored title is never empty, and the response shows it.
\<close>

theorem persisted_title:
  "POST env req w = Some ((200, Ok_body view), w') \<Longrightarrow>
     \<exists>row x answer val.
         summaries w' = summaries w @ [row]
       \<and> model_calls w' \<noteq> []
       \<and> generateContent env (length (model_calls w') - 1) (last (model_calls w')) = Resolved x
       \<and> answer = (case x of None \<Rightarrow> [] | Some t \<Rightarrow> t)
       \<and> (JSON_parse env answer = Some val
            \<or> (JSON_parse env answer = None
                \<and> (\<exists>sliced. extractJson answer = Some sliced
                       \<and> JSON_parse env sliced = Some val)))
       \<and> row_title row = (case get_prop val (str ''title'') of
                             Some (JString t) \<Rightarrow> if t = [] then default_title else take 140 t
                           | _ \<Rightarrow> default_title)
       \<and> row_title row \<noteq> []
       \<and> length (row_title row) \<le> 140
       \<and> v_title view = row_title row"
proof -
  assume "POST env req w = Some ((200, Ok_body view), w')"
  then obtain uid auto parsed row x answer val where
    row: "row = new_row env uid (pdf req) (extractedText (pdf req)) (images req) auto parsed"
    and view: "view = view_of row"
    and ss: "summaries w' = summaries w @ [row]"
    and ne: "model_calls w' \<noteq> []"
    and g: "generateContent env (length (model_calls w') - 1) (last (model_calls w')) = Resolved x"
    and a: "answer = (case x of None \<Rightarrow> [] | Some t \<Rightarrow> t)"
    and p: "JSON_parse env answer = Some val
         \<or> (JSON_parse env answer = None
             \<and> (\<exists>sliced. extractJson answer = Some sliced \<and> JSON_parse env sliced = Some val))"
    and n: "normalizeSummary val = Some parsed"
    by (rule POST_200_answer)
  have t0: "row_title row = (case title parsed of
                               None \<Rightarrow> default_title
                             | Some t \<Rightarrow> if t = [] then default_title else take 140 t)"
    by (simp add: row new_row_def Let_def js_slice_def split: option.splits)
  have t: "row_title row = (case get_prop val (str ''title'') of
                             Some (JString t) \<Rightarrow> if t = [] then default_title else take 140 t
                           | _ \<Rightarrow> default_title)"
    unfolding t0 normalizeSummary_fields(1) [OF n]
    by (simp split: option.splits json.splits)
  have dl: "length default_title \<le> 140"
    by (simp add: default_title_def str_def)
  from t0 have tn: "row_title row \<noteq> []"
    by (simp add: default_title_not_empty split: option.splits)
  from t0 dl have tl: "length (row_title row) \<le> 140"
    by (simp split: option.splits)
  have tv: "v_title view = row_title row"
    by (simp add: view view_of_def)
  from ss ne g a p t tn tl tv show ?thesis by blast
qed


text \<open>
  The model answers with a title of 150 code units: by the theorem its first 140 are
  stored. The answer of the scenario has no title, and the default title is stored.
\<close>

theorem persisted_title_witness:
  "POST env_titled req_short w0 = Some ((200, Ok_body view_titled), w_titled)
   \<and> generateContent env_titled (length (model_calls w_titled) - 1) (last (model_calls w_titled))
        = Resolved (Some reply_titled)
   \<and> JSON_parse env_titled reply_titled = Some value_titled
   \<and> get_prop value_titled (str ''title'') = Some (JString long_title)
   \<and> length long_title = 150
   \<and> (\<exists>row. summaries w_titled = summaries w0 @ [row]
          \<and> row_title row = take 140 long_title \<and> length (row_title row) = 140)
   \<and> v_title view_titled = take 140 long_title
   \<and> POST env0 req_short w0 = Some ((200, Ok_body view_short), w_short)
   \<and> JSON_parse env0 reply0 = None
   \<and> extractJson reply0 = Some object0
   \<and> JSON_parse env0 object0 = Some value0
   \<and> get_prop value0 (str ''title'') = None
   \<and> (\<exists>row. summaries w_short = summaries w0 @ [row] \<and> row_title row = default_title)
   \<and> v_title view_short = default_title"
proof -
  have ti: "get_prop value_titled (str ''title'') = Some (JString long_title)"
    by (simp add: value_titled_def str_def)
  have pt: "JSON_parse env_titled reply_titled = Some value_titled"
    by (simp add: env_titled_fields json_parse_reply_titled)
  have lt: "long_title \<noteq> []"
    using long_title_length by auto
  from persisted_title [OF POST_req_titled]
  obtain row1 x1 answer1 val1 where
    ss1: "summaries w_titled = summaries w0 @ [row1]"
    and ne1: "model_calls w_titled \<noteq> []"
    and g1: "generateContent env_titled (length (model_calls w_titled) - 1)
              (last (model_calls w_titled)) = Resolved x1"
    and a1: "answer1 = (case x1 of None \<Rightarrow> [] | Some t \<Rightarrow> t)"
    and p1: "JSON_parse env_titled answer1 = Some val1
               \<or> (JSON_parse env_titled answer1 = None
                   \<and> (\<exists>sliced. extractJson answer1 = Some sliced
                          \<and> JSON_parse env_titled sliced = Some val1))"
    and t1: "row_title row1 = (case get_prop val1 (str ''title'') of
                             Some (JString t) \<Rightarrow> if t = [] then default_title else take 140 t
                           | _ \<Rightarrow> default_title)"
    and tn1: "row_title row1 \<noteq> []"
    and tl1: "length (row_title row1) \<le> 140"
    and tv1: "v_title view_titled = row_title row1"
    by (elim exE conjE) (rule that, assumption+)
  from g1 have "x1 = Some reply_titled" by (simp add: env_titled_fields)
  with a1 have "answer1 = reply_titled" by simp
  with p1 pt have "val1 = value_titled" by simp
  with t1 ti lt have d: "row_title row1 = take 140 long_title" by simp
  then have "length (row_title row1) = 140" by (simp add: long_title_length)
  with ss1 d have 1: "\<exists>row. summaries w_titled = summaries w0 @ [row]
          \<and> row_title row = take 140 long_title \<and> length (row_title row) = 140"
    by blast
  from tv1 d have 2: "v_title view_titled = take 140 long_title"
    by simp
  have ti0: "get_prop value0 (str ''title'') = None"
    by (simp add: value0_def str_def)
  have p0: "JSON_parse env0 reply0 = None" "JSON_parse env0 object0 = Some value0"
    by (simp_all add: env0_fields json_parse_reply0 json_parse_object0 value0_def)
  from persisted_title [OF POST_req_short]
  obtain row2 x2 answer2 val2 where
    ss2: "summaries w_short = summaries w0 @ [row2]"
    and ne2: "model_calls w_short \<noteq> []"
    and g2: "generateContent env0 (length (model_calls w_short) - 1)
              (last (model_calls w_short)) = Resolved x2"
    and a2: "answer2 = (case x2 of None \<Rightarrow> [] | Some t \<Rightarrow> t)"
    and p2: "JSON_parse env0 answer2 = Some val2
               \<or> (JSON_parse env0 answer2 = None
                   \<and> (\<exists>sliced. extractJson answer2 = Some sliced
                          \<and> JSON_parse env0 sliced = Some val2))"
    and t2: "row_title row2 = (case get_prop val2 (str ''title'') of
                             Some (JString t) \<Rightarrow> if t = [] then default_title else take 140 t
                           | _ \<Rightarrow> default_title)"
    and tn2: "row_title row2 \<noteq> []"
    and tl2: "length (row_title row2) \<le> 140"
    and tv2: "v_title view_short = row_title row2"
    by (elim exE conjE) (rule that, assumption+)
  from g2 have "x2 = Some reply0" by (simp add: env0_fields)
  with a2 have "answer2 = reply0" by simp
  with p2 p0 extractJson_reply0 have "val2 = value0" by auto
  with t2 ti0 have d': "row_title row2 = default_title" by simp
  with ss2 have 3: "\<exists>row. summaries w_short = summaries w0 @ [row] \<and> row_title row = default_title"
    by blast
  from tv2 d' have 4: "v_title view_short = default_title"
    by simp
  have gt: "generateContent env_titled (length (model_calls w_titled) - 1)
              (last (model_calls w_titled)) = Resolved (Some reply_titled)"
    by (simp add: env_titled_fields)
  show ?thesis
    by (intro conjI)
      (fact POST_req_titled gt pt ti long_title_length 1 2 POST_req_short p0 extractJson_reply0
        ti0 3 4)+
qed

section \<open>The stored image count, and the images sent\<close>

lemma compress_images_map:
  "compress_images imgs parts = Inr out \<Longrightarrow>
     \<exists>encoded. map compressImageToJpegBase64 imgs = map Inr encoded
        \<and> out = parts @ map (\<lambda>a. InlineData (fst a) (snd a)) encoded"
proof (induction imgs arbitrary: parts)
  case Nil
  then show ?case by simp
next
  case (Cons img rest)
  from Cons.prems obtain mime b64 where
    c: "compressImageToJpegBase64 img = Inr (mime, b64)"
    and r: "compress_images rest (parts @ [InlineData mime b64]) = Inr out"
    by (auto split: sum.splits)
  from Cons.IH [OF r] obtain encoded where
    m: "map compressImageToJpegBase64 rest = map Inr encoded"
    and o: "out = (parts @ [InlineData mime b64]) @ map (\<lambda>a. InlineData (fst a) (snd a)) encoded"
    by blast
  from c m have "map compressImageToJpegBase64 (img # rest) = map Inr ((mime, b64) # encoded)"
    by simp
  moreover from o have "out = parts @ map (\<lambda>a. InlineData (fst a) (snd a)) ((mime, b64) # encoded)"
    by simp
  ultimately show ?case by blast
qed

lemma summarizeSingleCall_parts:
  assumes "summarizeSingleCall env t sl imgs auto h w = (Inr raw, w')"
  shows "\<exists>encoded. map compressImageToJpegBase64 (take 4 imgs) = map Inr encoded
           \<and> model_calls w' = model_calls w
                @ [Text_part (single_prompt_text t sl h)
                     # map (\<lambda>a. InlineData (fst a) (snd a)) encoded
                     @ map (\<lambda>a. InlineData (fst a) (snd a)) (take 4 auto)]"
proof -
  from assms obtain parts where
    c: "compress_images (js_slice imgs 0 4) [Text_part (single_prompt_text t sl h)] = Inr parts"
    and g: "generate env (parts @ map (\<lambda>a. InlineData (fst a) (snd a)) (js_slice auto 0 4)) w
              = (Inr raw, w')"
    by (auto simp: summarizeSingleCall_def split: sum.splits)
  from compress_images_map [OF c] obtain encoded where
    m: "map compressImageToJpegBase64 (js_slice imgs 0 4) = map Inr encoded"
    and p: "parts = [Text_part (single_prompt_text t sl h)]
                      @ map (\<lambda>a. InlineData (fst a) (snd a)) encoded"
    by blast
  from generate_frame(4) [OF g] p
  have "model_calls w' = model_calls w
                @ [Text_part (single_prompt_text t sl h)
                     # map (\<lambda>a. InlineData (fst a) (snd a)) encoded
                     @ map (\<lambda>a. InlineData (fst a) (snd a)) (take 4 auto)]"
    by (simp add: js_slice_def)
  with m show ?thesis by (auto simp: js_slice_def)
qed

lemma autoRasterize_Inr_cases:
  assumes "autoRasterize pdfFile t imgs w = (Inr auto, w2)"
  shows "((imgs \<noteq> [] \<or> trim t \<noteq> [] \<or> pdfFile = None) \<and> auto = [] \<and> model_calls w2 = model_calls w)
       \<or> (imgs = [] \<and> trim t = [] \<and> auto \<noteq> [] \<and> model_calls w2 = model_calls w
           \<and> (\<exists>f. pdfFile = Some f \<and> pdfBufferToJpegPagesBase64 f 2 = Some auto))"
  using assms
  by (auto simp: autoRasterize_def Let_def split: option.splits if_splits)


lemma POST_200_input:
  "POST env req w = Some ((200, b), w') \<Longrightarrow> \<not> (pdf req = None \<and> images req = [])"
  by (auto simp: POST_def Let_def split: if_splits option.splits)

text \<open>
  Claim C10. A successful request adds one row, and the response shows its \<open>imageCount\<close>.
  With one or more uploaded images the count is the number of uploads, however many,
  while the one model call carries, after the text part, the compressed forms of the
  first four uploads only: with more than four uploads the stored count is larger than
  the four images the model received. With no upload and a blank extracted text the
  count is the number of pages the rasterizer returned for the PDF, one or two, and
  the model call carries exactly these pages. With no upload and a text that is not
  blank no page is rasterized and the count is 0.
\<close>

theorem persisted_imageCount:
  "POST env req w = Some ((200, Ok_body view), w') \<Longrightarrow>
     \<exists>row n.
         summaries w' = summaries w @ [row]
       \<and> imageCount row = Some n
       \<and> v_imageCount view = Some n
       \<and> (images req \<noteq> [] \<longrightarrow>
            n = length (images req)
            \<and> (\<exists>encoded.
                  map compressImageToJpegBase64 (take 4 (images req)) = map Inr encoded
                \<and> length encoded = min 4 (length (images req))
                \<and> model_calls w' = model_calls w
                     @ [Text_part (single_prompt_text (extractedText (pdf req))
                                     (summaryLength_for (extractedText (pdf req))) True)
                          # map (\<lambda>a. InlineData (fst a) (snd a)) encoded]
                \<and> (4 < length (images req) \<longrightarrow> length encoded = 4 \<and> length encoded < n)))
       \<and> (images req = [] \<and> trim (extractedText (pdf req)) = [] \<longrightarrow>
            (\<exists>f pages.
                  pdf req = Some f
                \<and> pdfBufferToJpegPagesBase64 f 2 = Some pages
                \<and> 1 \<le> length pages \<and> length pages \<le> 2
                \<and> n = length pages
                \<and> model_calls w' = model_calls w
                     @ [Text_part (single_prompt_text (extractedText (pdf req))
                                     (summaryLength_for (extractedText (pdf req))) True)
                          # map (\<lambda>a. InlineData (fst a) (snd a)) pages]))
       \<and> (images req = [] \<and> trim (extractedText (pdf req)) \<noteq> [] \<longrightarrow> n = 0)"
proof -
  assume post: "POST env req w = Some ((200, Ok_body view), w')"
  then obtain uid auto raw parsed w2 w3 row where
    ar: "autoRasterize (pdf req) (extractedText (pdf req)) (images req) (ensureUserRow uid w)
       = (Inr auto, w2)"
    and sm: "summarize env (extractedText (pdf req)) (summaryLength_for (extractedText (pdf req)))
           (images req) auto w2 = Some (Inr raw, w3)"
    and row: "row = new_row env uid (pdf req) (extractedText (pdf req)) (images req) auto parsed"
    and view: "view = view_of row"
    and ss: "summaries w' = summaries w @ [row]"
    and mc: "model_calls w' = model_calls w3"
    by (rule POST_200_row)
  let ?t = "extractedText (pdf req)"
  let ?sl = "summaryLength_for ?t"
  define n where "n = (if images req \<noteq> [] then length (images req) else length auto)"
  have cnt: "imageCount row = Some n"
    by (simp add: row new_row_def Let_def n_def)
  have vc: "v_imageCount view = Some n"
    by (simp add: view view_of_def cnt)
  note cases = autoRasterize_Inr_cases [OF ar]
  from cases have m2: "model_calls w2 = model_calls w"
    by (auto simp: ensureUserRow_frame)
  have single: "\<exists>encoded. map compressImageToJpegBase64 (take 4 (images req)) = map Inr encoded
           \<and> model_calls w' = model_calls w
                @ [Text_part (single_prompt_text ?t ?sl True)
                     # map (\<lambda>a. InlineData (fst a) (snd a)) encoded
                     @ map (\<lambda>a. InlineData (fst a) (snd a)) (take 4 auto)]"
    if h: "images req \<noteq> [] \<or> auto \<noteq> []"
  proof -
    from h sm have "summarizeSingleCall env ?t ?sl (images req) auto True w2 = (Inr raw, w3)"
      by (auto simp: summarize_def Let_def)
    from summarizeSingleCall_parts [OF this] mc m2 show ?thesis by simp
  qed
  have A: "n = length (images req)
            \<and> (\<exists>encoded.
                  map compressImageToJpegBase64 (take 4 (images req)) = map Inr encoded
                \<and> length encoded = min 4 (length (images req))
                \<and> model_calls w' = model_calls w
                     @ [Text_part (single_prompt_text ?t ?sl True)
                          # map (\<lambda>a. InlineData (fst a) (snd a)) encoded]
                \<and> (4 < length (images req) \<longrightarrow> length encoded = 4 \<and> length encoded < n))"
    if i: "images req \<noteq> []"
  proof -
    from i have n: "n = length (images req)" by (simp add: n_def)
    from i cases have e: "auto = []" by auto
    from single i obtain encoded where
      m: "map compressImageToJpegBase64 (take 4 (images req)) = map Inr encoded"
      and c: "model_calls w' = model_calls w
                @ [Text_part (single_prompt_text ?t ?sl True)
                     # map (\<lambda>a. InlineData (fst a) (snd a)) encoded
                     @ map (\<lambda>a. InlineData (fst a) (snd a)) (take 4 auto)]"
      by blast
    from m have "length (map compressImageToJpegBase64 (take 4 (images req)))
                   = length (map Inr encoded :: (exn + encoded_image) list)"
      by simp
    then have l: "length encoded = min 4 (length (images req))"
      by (simp add: min.commute)
    from c e have c': "model_calls w' = model_calls w
                     @ [Text_part (single_prompt_text ?t ?sl True)
                          # map (\<lambda>a. InlineData (fst a) (snd a)) encoded]"
      by simp
    from l n have "4 < length (images req) \<longrightarrow> length encoded = 4 \<and> length encoded < n"
      by simp
    with n m l c' show ?thesis by blast
  qed
  have B: "\<exists>f pages.
                  pdf req = Some f
                \<and> pdfBufferToJpegPagesBase64 f 2 = Some pages
                \<and> 1 \<le> length pages \<and> length pages \<le> 2
                \<and> n = length pages
                \<and> model_calls w' = model_calls w
                     @ [Text_part (single_prompt_text ?t ?sl True)
                          # map (\<lambda>a. InlineData (fst a) (snd a)) pages]"
    if i: "images req = [] \<and> trim ?t = []"
  proof -
    from POST_200_input [OF post] i have "pdf req \<noteq> None" by simp
    with i cases obtain f where f: "pdf req = Some f"
      and r: "pdfBufferToJpegPagesBase64 f 2 = Some auto" and ne: "auto \<noteq> []"
      by auto
    from rasterized_pages [OF r] have l: "1 \<le> length auto" "length auto \<le> 2" by simp_all
    from i have n: "n = length auto" by (simp add: n_def)
    from single ne obtain encoded where
      m: "map compressImageToJpegBase64 (take 4 (images req)) = map Inr encoded"
      and c: "model_calls w' = model_calls w
                @ [Text_part (single_prompt_text ?t ?sl True)
                     # map (\<lambda>a. InlineData (fst a) (snd a)) encoded
                     @ map (\<lambda>a. InlineData (fst a) (snd a)) (take 4 auto)]"
      by blast
    from m i have "encoded = []" by simp
    with c l have "model_calls w' = model_calls w
                     @ [Text_part (single_prompt_text ?t ?sl True)
                          # map (\<lambda>a. InlineData (fst a) (snd a)) auto]"
      by simp
    with f r l n show ?thesis by blast
  qed
  have C: "n = 0" if i: "images req = [] \<and> trim ?t \<noteq> []"
  proof -
    from i cases have "auto = []" by auto
    with i show ?thesis by (simp add: n_def)
  qed
  from ss cnt vc A B C show ?thesis by blast
qed


section \<open>The scanned PDF whose pages render\<close>

lemma raster_pdf_pages:
  "pdfBufferToJpegPagesBase64 pdf_pages 2
     = Some [(str ''image/jpeg'', str ''PG0''), (str ''image/jpeg'', str ''PG1'')]"
  by (simp add: pdfBufferToJpegPagesBase64_def totalPages_def pdf_pages_def render_loop.simps
      decimal.simps str_def)

lemma req_pages_fields:
  "has_api_key req_pages" "caller req_pages = Some (str ''u1'')"
  "pdf req_pages = Some pdf_pages" "images req_pages = []"
  "extractedText (pdf req_pages) = []"
  "extractedText (Some pdf_pages) = []"
  by (simp_all add: req_pages_def extractedText_def pdf_pages_def)

lemma POST_req_pages:
  "POST env0 req_pages w0 = Some ((200, Ok_body view_pages), w_pages)"
proof -
  let ?pages = "[(str ''image/jpeg'', str ''PG0''), (str ''image/jpeg'', str ''PG1'')]"
  let ?w2 = "w0\<lparr>users := [str ''u1''], raster_attempts := Suc 0\<rparr>"
  have some: "\<not> (pdf req_pages = None \<and> images req_pages = [])"
    by (simp add: req_pages_fields)
  have ar: "autoRasterize (pdf req_pages) (extractedText (pdf req_pages)) (images req_pages)
              (ensureUserRow (str ''u1'') w0) = (Inr ?pages, ?w2)"
    by (simp add: req_pages_fields autoRasterize_attempted trim_Nil raster_pdf_pages
        ensureUserRow_def w0_def)
  have sm: "summarize env0 (extractedText (pdf req_pages))
              (summaryLength_for (extractedText (pdf req_pages))) (images req_pages) ?pages ?w2
            = Some (Inr reply0,
                ?w2\<lparr>model_calls := [[Text_part (single_prompt_text [] (str ''18-24'') True),
                               InlineData (str ''image/jpeg'') (str ''PG0''),
                               InlineData (str ''image/jpeg'') (str ''PG1'')]]\<rparr>)"
    by (simp add: req_pages_fields summaryLength_for_def summarize_def summarizeSingleCall_def
        js_slice_def generate_def env0_def w0_def)
  have src: "toApiSource SummarySource_pdf_image = str ''pdf+image''"
    "toDbSource (str ''pdf+image'') = SummarySource_pdf_image"
    by (simp_all add: toApiSource_def toDbSource_def SummarySource_pdf_image_def str_def)
  have env: "JSON_parse env0 = json_parse" "fresh_id env0 = str ''s1''" "now env0 = 0"
    by (simp_all add: env0_def)
  from POST_unfold [OF req_pages_fields(1,2) u1_not_empty some, of env0 w0]
  have "POST env0 req_pages w0
      = Some (persist env0 (str ''u1'') (pdf req_pages) (extractedText (pdf req_pages))
                (images req_pages) ?pages
                \<lparr>title = None, summary = str ''...'', keywords = [str ''a'', str ''b'']\<rparr>
                (?w2\<lparr>model_calls := [[Text_part (single_prompt_text [] (str ''18-24'') True),
                               InlineData (str ''image/jpeg'') (str ''PG0''),
                               InlineData (str ''image/jpeg'') (str ''PG1'')]]\<rparr>))"
    by (simp add: ar sm env parseSummary_reply0)
  also have "\<dots> = Some ((200, Ok_body view_pages), w_pages)"
    by (simp add: env persist_def new_row_def view_of_def sourceUI_def src
        req_pages_fields(4,5,6) req_pages_def pdf_pages_def extractedText_def view_pages_def w_pages_def
        row_pages_def w0_def)
  finally show ?thesis .
qed

text \<open>
  Five uploads: by the theorem the row says 5 and the model call carries four images.
  A scan of seven pages and no upload: the row says 2, the pages rendered.
\<close>

theorem persisted_imageCount_witness:
  "POST env0 req_images5 w0 = Some ((200, Ok_body view_images5), w_images5)
   \<and> length (images req_images5) = 5
   \<and> (\<exists>row encoded. summaries w_images5 = summaries w0 @ [row]
         \<and> imageCount row = Some 5
         \<and> length encoded = 4
         \<and> model_calls w_images5 = model_calls w0
              @ [Text_part (single_prompt_text (extractedText (pdf req_images5))
                              (summaryLength_for (extractedText (pdf req_images5))) True)
                   # map (\<lambda>a. InlineData (fst a) (snd a)) encoded])
   \<and> v_imageCount view_images5 = Some 5
   \<and> POST env0 req_pages w0 = Some ((200, Ok_body view_pages), w_pages)
   \<and> images req_pages = []
   \<and> trim (extractedText (pdf req_pages)) = []
   \<and> pdf req_pages = Some pdf_pages
   \<and> pdfBufferToJpegPagesBase64 pdf_pages 2
        = Some [(str ''image/jpeg'', str ''PG0''), (str ''image/jpeg'', str ''PG1'')]
   \<and> (\<exists>row. summaries w_pages = summaries w0 @ [row] \<and> imageCount row = Some 2)
   \<and> v_imageCount view_pages = Some 2"
proof -
  have i5: "images req_images5 \<noteq> []" and l5: "length (images req_images5) = 5"
    by (simp_all add: req_images5_def)
  from persisted_imageCount [OF POST_req_images5]
  obtain row1 n1 where
    ss1: "summaries w_images5 = summaries w0 @ [row1]"
    and c1: "imageCount row1 = Some n1"
    and v1: "v_imageCount view_images5 = Some n1"
    and u1: "images req_images5 \<noteq> [] \<longrightarrow>
            n1 = length (images req_images5)
            \<and> (\<exists>encoded.
                  map compressImageToJpegBase64 (take 4 (images req_images5)) = map Inr encoded
                \<and> length encoded = min 4 (length (images req_images5))
                \<and> model_calls w_images5 = model_calls w0
                     @ [Text_part (single_prompt_text (extractedText (pdf req_images5))
                                     (summaryLength_for (extractedText (pdf req_images5))) True)
                          # map (\<lambda>a. InlineData (fst a) (snd a)) encoded]
                \<and> (4 < length (images req_images5) \<longrightarrow> length encoded = 4 \<and> length encoded < n1))"
    by (elim exE conjE) (rule that, assumption+)
  from u1 i5 l5 have n1: "n1 = 5" by simp
  from u1 i5 l5 obtain encoded where
    "length encoded = 4"
    and "model_calls w_images5 = model_calls w0
           @ [Text_part (single_prompt_text (extractedText (pdf req_images5))
                           (summaryLength_for (extractedText (pdf req_images5))) True)
                # map (\<lambda>a. InlineData (fst a) (snd a)) encoded]"
    by auto
  with ss1 c1 n1 have 1: "\<exists>row encoded. summaries w_images5 = summaries w0 @ [row]
         \<and> imageCount row = Some 5
         \<and> length encoded = 4
         \<and> model_calls w_images5 = model_calls w0
              @ [Text_part (single_prompt_text (extractedText (pdf req_images5))
                              (summaryLength_for (extractedText (pdf req_images5))) True)
                   # map (\<lambda>a. InlineData (fst a) (snd a)) encoded]"
    by blast
  from v1 n1 have 2: "v_imageCount view_images5 = Some 5" by simp
  have t: "trim (extractedText (pdf req_pages)) = []"
    by (simp add: req_pages_fields trim_Nil)
  from persisted_imageCount [OF POST_req_pages]
  obtain row2 n2 where
    ss2: "summaries w_pages = summaries w0 @ [row2]"
    and c2: "imageCount row2 = Some n2"
    and v2: "v_imageCount view_pages = Some n2"
    and u2: "images req_pages = [] \<and> trim (extractedText (pdf req_pages)) = [] \<longrightarrow>
            (\<exists>f pages.
                  pdf req_pages = Some f
                \<and> pdfBufferToJpegPagesBase64 f 2 = Some pages
                \<and> 1 \<le> length pages \<and> length pages \<le> 2
                \<and> n2 = length pages
                \<and> model_calls w_pages = model_calls w0
                     @ [Text_part (single_prompt_text (extractedText (pdf req_pages))
                                     (summaryLength_for (extractedText (pdf req_pages))) True)
                          # map (\<lambda>a. InlineData (fst a) (snd a)) pages])"
    by (elim exE conjE) (rule that, assumption+)
  from u2 req_pages_fields(4) t obtain f pages where
    "pdf req_pages = Some f" and "pdfBufferToJpegPagesBase64 f 2 = Some pages"
    and "n2 = length pages"
    by blast
  with req_pages_fields(3) raster_pdf_pages have n2: "n2 = 2" by auto
  from ss2 c2 n2 have 3: "\<exists>row. summaries w_pages = summaries w0 @ [row] \<and> imageCount row = Some 2"
    by blast
  from v2 n2 have 4: "v_imageCount view_pages = Some 2" by simp
  show ?thesis
    by (intro conjI)
      (fact POST_req_images5 l5 1 2 POST_req_pages req_pages_fields(3,4) t raster_pdf_pages 3 4)+
qed

end
